theory Spec2Isabelle
  imports Main
begin

section \<open>The secret vault of Cultured Downloader: data model\<close>

text \<open>
  The development embeds \<^verbatim>\<open>src/utils/user_data.py\<close> (class \<^verbatim>\<open>UserData\<close>, the retry
  wrappers and the cookie threads) together with the parts of
  \<^verbatim>\<open>src/utils/functional.py\<close> and \<^verbatim>\<open>src/utils/cryptography_operations.py\<close> it calls.

  Python \<^verbatim>\<open>bytes\<close> and \<^verbatim>\<open>str\<close> are both lists of \<^typ>\<open>char\<close> (a \<^typ>\<open>char\<close> is one
  byte). A character at or above 128 stands for a non-ASCII code point of a Python string.
  Exceptions are values: a call that may raise returns \<open>exn + 'a\<close>, and a method that
  touches the disk returns its result paired with the new file store, so that what was
  deleted or written before an exception is still visible.
\<close>

type_synonym bytes = string

text \<open>JSON values as \<^verbatim>\<open>json.loads\<close> returns them; a dict is an association list read with
  \<^const>\<open>map_of\<close>.\<close>

datatype json =
    JNull
  | JBool bool
  | JNum int
  | JStr string
  | JArr "json list"
  | JObj "(string \<times> json) list"

text \<open>The messages \<^verbatim>\<open>log_api_error\<close> is called with: the status line with the response
  text, the server's \<^verbatim>\<open>error\<close> field, and the fixed text for a response of the wrong shape.\<close>

datatype api_error =
    ReceivedStatus nat string
  | ErrorField json
  | InvalidJsonFormat

datatype exn =
    ValueError
  | TypeError
  | KeyError
  | UnicodeDecodeError
  | JSONDecodeError
  | BinasciiError
  | InvalidTag
  | APIServerError api_error
  | ConnectError
  | ReadTimeout
  | ConnectTimeout
  | OtherException string

text \<open>
  Python's class hierarchy, as far as the \<^verbatim>\<open>except\<close> clauses of the vault need it:
  \<^verbatim>\<open>UnicodeDecodeError\<close>, \<^verbatim>\<open>json.JSONDecodeError\<close> and \<^verbatim>\<open>binascii.Error\<close> are subclasses of
  \<^verbatim>\<open>ValueError\<close>, so \<^verbatim>\<open>except ValueError\<close> catches them too.
\<close>

definition is_ValueError :: "exn \<Rightarrow> bool" where
  "is_ValueError e =
     (e = ValueError \<or> e = UnicodeDecodeError \<or> e = JSONDecodeError \<or> e = BinasciiError)"

text \<open>
  The files the vault knows, named as the constants of \<^verbatim>\<open>constants.py\<close> name them (that
  module is not among the sources; its paths are taken to be pairwise different). A file
  holds bytes. The store holds regular files only: \<^verbatim>\<open>p.exists() and p.is_file()\<close> is
  \<open>fs p \<noteq> None\<close>, and failures of the operating system (permissions, full disk) are
  outside the model.
\<close>

datatype path =
    SECRET_KEY_PATH
  | KEY_ID_TOKEN_JSON_PATH
  | CONFIG_JSON_FILE_PATH
  | FANTIA_COOKIE_PATH
  | PIXIV_FANBOX_COOKIE_PATH
  | GDRIVE_API_KEY_PATH
  | PIXIV_REFRESH_TOKEN_PATH
  | DANBOORU_AUTH_PATH

type_synonym fs = "path \<Rightarrow> bytes option"

definition unlink :: "path \<Rightarrow> fs \<Rightarrow> fs" where
  "unlink p fs = fs(p := None)"

definition write_file :: "path \<Rightarrow> bytes \<Rightarrow> fs \<Rightarrow> fs" where
  "write_file p content fs = fs(p \<mapsto> content)"

text \<open>What \<^verbatim>\<open>decrypt_data\<close> returns and what \<^verbatim>\<open>self.data\<close> holds:
  \<^verbatim>\<open>Union[bytes, str, dict]\<close>.\<close>

datatype payload = Bytes bytes | Str string | Json json

type_synonym schema = "json \<Rightarrow> bool"
type_synonym regex = "string \<Rightarrow> bool"

subsection \<open>The standard library: base64 and \<^verbatim>\<open>str.split\<close>\<close>

text \<open>
  \<^verbatim>\<open>base64.b64encode\<close> with the standard alphabet and \<open>=\<close> padding, and
  \<^verbatim>\<open>base64.b64decode\<close> in its default, non-validating mode: a string argument is
  encoded to ASCII first (\<^verbatim>\<open>ValueError\<close> on a non-ASCII character), then
  \<^verbatim>\<open>binascii.a2b_base64\<close> runs its state machine over the characters: \<open>quad_pos\<close> is the
  position inside the current group of four, \<open>leftchar\<close> the bits not yet written,
  \<open>pads\<close> the padding characters seen since the last data character. Characters outside
  the alphabet are skipped; input that ends inside a group is \<^verbatim>\<open>binascii.Error\<close>.
  The C code joins the bit fields with shifts and \<open>|\<close>; the fields never overlap, so the
  model adds them, and \<^const>\<open>char_of\<close> truncates to eight bits as the store into an
  \<^verbatim>\<open>unsigned char\<close> does.
\<close>

definition b64_alphabet :: string where
  "b64_alphabet = ''ABCDEFGHIJKLMNOPQRSTUVWXYZabcdefghijklmnopqrstuvwxyz0123456789+/''"

definition b64char :: "nat \<Rightarrow> char" where
  "b64char n = b64_alphabet ! n"

fun index_of :: "'a \<Rightarrow> 'a list \<Rightarrow> nat option" where
  "index_of x [] = None"
| "index_of x (y # ys) = (if x = y then Some 0 else map_option Suc (index_of x ys))"

definition b64index :: "char \<Rightarrow> nat option" where
  "b64index c = index_of c b64_alphabet"

fun b64encode :: "bytes \<Rightarrow> string" where
  "b64encode (a # b # c # rest) =
     b64char (of_char a div 4) #
     b64char (of_char a mod 4 * 16 + of_char b div 16) #
     b64char (of_char b mod 16 * 4 + of_char c div 64) #
     b64char (of_char c mod 64) # b64encode rest"
| "b64encode [a, b] =
     [b64char (of_char a div 4),
      b64char (of_char a mod 4 * 16 + of_char b div 16),
      b64char (of_char b mod 16 * 4), CHR ''='']"
| "b64encode [a] =
     [b64char (of_char a div 4), b64char (of_char a mod 4 * 16), CHR ''='', CHR ''='']"
| "b64encode [] = []"

definition emit :: "char \<Rightarrow> exn + bytes \<Rightarrow> exn + bytes" where
  "emit b r = (case r of Inl e \<Rightarrow> Inl e | Inr bs \<Rightarrow> Inr (b # bs))"

fun a2b_base64 :: "nat \<Rightarrow> nat \<Rightarrow> nat \<Rightarrow> string \<Rightarrow> exn + bytes" where
  "a2b_base64 quad_pos leftchar pads [] =
     (if quad_pos \<noteq> 0 then Inl BinasciiError else Inr [])"
| "a2b_base64 quad_pos leftchar pads (c # cs) =
     (if c = CHR ''='' then
        (if 2 \<le> quad_pos then
           (if 4 \<le> quad_pos + (pads + 1) then Inr []
            else a2b_base64 quad_pos leftchar (pads + 1) cs)
         else a2b_base64 quad_pos leftchar pads cs)
      else
        (case b64index c of
           None \<Rightarrow> a2b_base64 quad_pos leftchar pads cs
         | Some v \<Rightarrow>
            (if quad_pos = 0 then a2b_base64 1 v 0 cs
             else if quad_pos = 1 then
               emit (char_of (leftchar * 4 + v div 16)) (a2b_base64 2 (v mod 16) 0 cs)
             else if quad_pos = 2 then
               emit (char_of (leftchar * 16 + v div 4)) (a2b_base64 3 (v mod 4) 0 cs)
             else emit (char_of (leftchar * 64 + v)) (a2b_base64 0 0 0 cs))))"

definition b64decode :: "string \<Rightarrow> exn + bytes" where
  "b64decode s =
     (if list_all (\<lambda>c. of_char c < (128::nat)) s then a2b_base64 0 0 0 s else Inl ValueError)"

text \<open>\<^verbatim>\<open>s.split(sep=".")\<close>: the fields between the dots, never an empty list.\<close>

fun split_dot :: "string \<Rightarrow> string list" where
  "split_dot [] = [[]]"
| "split_dot (c # cs) =
     (if c = CHR ''.'' then [] # split_dot cs
      else (case split_dot cs of [] \<Rightarrow> [[c]] | f # fs \<Rightarrow> (c # f) # fs))"

subsection \<open>What the vault calls but does not define\<close>

text \<open>
  \<^verbatim>\<open>user_data.py\<close> takes its cipher from \<^verbatim>\<open>from cryptography_operations import *\<close>. The
  module under \<^verbatim>\<open>src/\<close> defines neither \<^verbatim>\<open>chacha_encrypt\<close>, \<^verbatim>\<open>chacha_decrypt\<close> nor
  \<^verbatim>\<open>generate_chacha20_key\<close>, and its \<^verbatim>\<open>rsa_encrypt\<close> and \<^verbatim>\<open>rsa_decrypt\<close> name their
  parameters \<^verbatim>\<open>digestMethod\<close> and \<^verbatim>\<open>privateKey\<close> where the callers pass
  \<^verbatim>\<open>digest_method\<close> and \<^verbatim>\<open>private_key\<close>. The vault is therefore verified against the
  interface its calls are written for: every such function is a field of the record
  \<open>lib\<close>, each may raise, and every theorem holds for any \<open>lib\<close> (a function that
  always raises \<^verbatim>\<open>TypeError\<close> included). Randomness drawn inside a call is an explicit
  argument \<open>rnd\<close>. An RSA private key of the \<^verbatim>\<open>cryptography\<close> package is the record of
  what it was generated from (exponent, size, randomness); its two PEM serialisations are
  fields of \<open>lib\<close>. The UTF-8 codec and the JSON codec of the standard library are
  fields as well: \<open>None\<close> is \<^verbatim>\<open>UnicodeDecodeError\<close>, respectively \<^verbatim>\<open>JSONDecodeError\<close>.
  So are the two things a file opened in text mode takes from the platform: the codec
  of the locale, asked only for content that is not plain ASCII (\<open>locale_decode\<close>, again
  \<open>None\<close> for \<^verbatim>\<open>UnicodeDecodeError\<close>), and the line separator \<^verbatim>\<open>os.linesep\<close>.
\<close>

record rsa_private_key =
  public_exponent :: nat
  key_size :: nat
  key_seed :: bytes

record lib =
  private_bytes_pem :: "rsa_private_key \<Rightarrow> string"
  public_bytes_pem :: "rsa_private_key \<Rightarrow> string"
  chacha_encrypt :: "payload option \<Rightarrow> bytes \<Rightarrow> bytes \<Rightarrow> exn + bytes \<times> bytes"
  chacha_decrypt :: "bytes \<Rightarrow> bytes \<Rightarrow> bytes \<Rightarrow> exn + bytes"
  generate_chacha20_key :: "bytes \<Rightarrow> bytes"
  rsa_encrypt :: "bytes \<Rightarrow> string \<Rightarrow> exn + bytes"
  rsa_decrypt :: "bytes \<Rightarrow> string \<Rightarrow> string \<Rightarrow> exn + bytes"
  load_pem_private_key :: "string \<Rightarrow> exn + string"
  utf8_decode :: "bytes \<Rightarrow> string option"
  locale_decode :: "bytes \<Rightarrow> string option"
  linesep :: string
  json_loads :: "string \<Rightarrow> json option"
  json_dumps :: "json \<Rightarrow> string"

text \<open>
  Files opened in text mode. \<^verbatim>\<open>open(p, "r").read()\<close> decodes the bytes with the codec of
  the locale, strictly, and then turns every CR LF and every CR into LF; the codec is
  taken to agree with ASCII on bytes below 128, as the codecs of all usual locales do.
  \<^verbatim>\<open>open(p, "w").write(s)\<close> writes \<^verbatim>\<open>os.linesep\<close> for every LF; everything the vault
  writes in text mode is ASCII (base64 and a dot, or the output of \<^verbatim>\<open>json.dump\<close>, which
  escapes what is not), so nothing else happens to it.
\<close>

fun universal_newlines :: "string \<Rightarrow> string" where
  "universal_newlines [] = []"
| "universal_newlines [c] = (if c = CHR 0x0D then [CHR 0x0A] else [c])"
| "universal_newlines (c # d # cs) =
     (if c = CHR 0x0D then
        (if d = CHR 0x0A then CHR 0x0A # universal_newlines cs
         else CHR 0x0A # universal_newlines (d # cs))
      else c # universal_newlines (d # cs))"

definition read_text :: "lib \<Rightarrow> bytes \<Rightarrow> string option" where
  "read_text L content =
     map_option universal_newlines
       (if list_all (\<lambda>c. of_char c < (128::nat)) content then Some content
        else locale_decode L content)"

definition write_text :: "lib \<Rightarrow> string \<Rightarrow> bytes" where
  "write_text L s = concat (map (\<lambda>c. if c = CHR 0x0A then linesep L else [c]) s)"

text \<open>
  \<^verbatim>\<open>functional.validate_schema\<close> with \<^verbatim>\<open>return_bool=True\<close>: data that is neither a
  string, a dict nor a list is refused outright; a string goes through
  \<^verbatim>\<open>schema.parse_raw\<close> (which parses it as JSON first), anything else through
  \<^verbatim>\<open>schema.parse_obj\<close>; a \<^verbatim>\<open>ValidationError\<close> is \<open>False\<close>. A pydantic schema is the
  predicate of the objects \<^verbatim>\<open>parse_obj\<close> accepts.
\<close>

definition validate_schema :: "lib \<Rightarrow> schema \<Rightarrow> json \<Rightarrow> bool" where
  "validate_schema L schema data_v =
     (case data_v of
        JStr s \<Rightarrow> (case json_loads L s of None \<Rightarrow> False | Some j \<Rightarrow> schema j)
      | JObj kvs \<Rightarrow> schema data_v
      | JArr xs \<Rightarrow> schema data_v
      | _ \<Rightarrow> False)"

subsection \<open>\<^verbatim>\<open>UserData\<close>: the object, \<^verbatim>\<open>encrypt_data\<close> and \<^verbatim>\<open>decrypt_data\<close>\<close>

record user_data =
  private_key :: string
  public_key :: string
  client_digest_method :: string
  server_digest_method :: string
  data_path :: path
  secret_key :: bytes
  data_attr :: "payload option"

text \<open>
  \<^verbatim>\<open>encrypt_data\<close> (lines 102--113): the parent directory is created, \<^verbatim>\<open>data\<close> defaults
  to \<^verbatim>\<open>self.data\<close>, and the file receives
  \<^verbatim>\<open>".".join((b64encode(ciphertext), b64encode(nonce)))\<close>.
\<close>

definition encrypt_data ::
  "lib \<Rightarrow> user_data \<Rightarrow> payload option \<Rightarrow> bytes \<Rightarrow> fs \<Rightarrow> (exn + unit) \<times> fs" where
  "encrypt_data L self data_arg rnd fs =
     (let data_v = (case data_arg of None \<Rightarrow> data_attr self | Some d \<Rightarrow> Some d) in
      case chacha_encrypt L data_v (secret_key self) rnd of
        Inl e \<Rightarrow> (Inl e, fs)
      | Inr (encrypted_data, nonce) \<Rightarrow>
          (Inr (),
           write_file (data_path self)
             (write_text L (b64encode encrypted_data @ ''.'' @ b64encode nonce)) fs))"

text \<open>
  \<^verbatim>\<open>decrypt_data\<close> (lines 115--188), branch by branch. The file is read in text mode
  outside every \<^verbatim>\<open>try\<close> (lines 143--144): content the locale's codec refuses raises
  \<^verbatim>\<open>UnicodeDecodeError\<close> to the caller and the file stays. The \<^verbatim>\<open>except\<close> clause around
  the base64 decoding catches every exception \<^const>\<open>b64decode\<close> can raise; the one around
  \<^verbatim>\<open>chacha_decrypt\<close> catches \<^verbatim>\<open>InvalidTag\<close>, \<^verbatim>\<open>ValueError\<close> and the subclasses of
  \<^verbatim>\<open>ValueError\<close>, and nothing else. \<^verbatim>\<open>decrypted_data.decode("utf-8")\<close> (lines 169--170)
  stands outside every \<^verbatim>\<open>try\<close> as well.
\<close>

definition validate_decrypted ::
  "lib \<Rightarrow> path \<Rightarrow> bool \<Rightarrow> schema option \<Rightarrow> regex option \<Rightarrow> bytes \<Rightarrow> fs \<Rightarrow>
     (exn + payload option) \<times> fs" where
  "validate_decrypted L p decode schema regex decrypted_data fs =
     (if decode then
        (case utf8_decode L decrypted_data of
           None \<Rightarrow> (Inl UnicodeDecodeError, fs)
         | Some s \<Rightarrow>
            (if (case regex of None \<Rightarrow> False | Some r \<Rightarrow> \<not> r s) then (Inr None, unlink p fs)
             else
               (case schema of
                  None \<Rightarrow> (Inr (Some (Str s)), fs)
                | Some sc \<Rightarrow>
                   (case json_loads L s of
                      None \<Rightarrow> (Inr None, unlink p fs)
                    | Some j \<Rightarrow>
                       (if \<not> validate_schema L sc j then (Inr None, unlink p fs)
                        else (Inr (Some (Json j)), fs))))))
      else (Inr (Some (Bytes decrypted_data)), fs))"

definition decrypt_data ::
  "lib \<Rightarrow> user_data \<Rightarrow> bool \<Rightarrow> schema option \<Rightarrow> regex option \<Rightarrow> fs \<Rightarrow>
     (exn + payload option) \<times> fs" where
  "decrypt_data L self decode_arg schema regex fs =
     (if schema \<noteq> None \<and> regex \<noteq> None then (Inl ValueError, fs)
      else
        let decode = (if \<not> decode_arg \<and> (schema \<noteq> None \<or> regex \<noteq> None) then True
                      else decode_arg)
        in
        (case fs (data_path self) of
           None \<Rightarrow> (Inr None, fs)
         | Some content \<Rightarrow>
            (case read_text L content of
               None \<Rightarrow> (Inl UnicodeDecodeError, fs)
             | Some encrypted_data_with_nonce \<Rightarrow>
                (case split_dot encrypted_data_with_nonce of
                   [encrypted_data, nonce] \<Rightarrow>
                     (case b64decode encrypted_data of
                        Inl e \<Rightarrow> (Inr None, unlink (data_path self) fs)
                      | Inr ct \<Rightarrow>
                         (case b64decode nonce of
                            Inl e \<Rightarrow> (Inr None, unlink (data_path self) fs)
                          | Inr n \<Rightarrow>
                             (case chacha_decrypt L ct (secret_key self) n of
                                Inl e \<Rightarrow>
                                  (if e = InvalidTag \<or> is_ValueError e
                                   then (Inr None, unlink (data_path self) fs)
                                   else (Inl e, fs))
                              | Inr decrypted_data \<Rightarrow>
                                  validate_decrypted L (data_path self) decode schema regex
                                    decrypted_data fs)))
                 | _ \<Rightarrow> (Inr None, unlink (data_path self) fs)))))"

text \<open>
  The corruptions the load is specified to heal, written from the specification's list
  and not from the code, for a file that could be read as text: an envelope that is not
  two fields around a single dot, a field that is not base64, a ciphertext the cipher
  rejects, a plaintext (valid UTF-8) the regex does not match, and, with a schema
  declared, a plaintext (valid UTF-8) that is not JSON or not of the schema.
\<close>

definition envelope_fields :: "string \<Rightarrow> string \<times> string" where
  "envelope_fields content =
     (takeWhile (\<lambda>c. c \<noteq> CHR ''.'') content, tl (dropWhile (\<lambda>c. c \<noteq> CHR ''.'') content))"

definition rejected_plaintext :: "lib \<Rightarrow> schema option \<Rightarrow> regex option \<Rightarrow> bytes \<Rightarrow> bool" where
  "rejected_plaintext L schema regex pt =
     (case utf8_decode L pt of
        None \<Rightarrow> False
      | Some s \<Rightarrow>
          (case regex of None \<Rightarrow> False | Some r \<Rightarrow> \<not> r s) \<or>
          (case schema of
             None \<Rightarrow> False
           | Some sc \<Rightarrow>
              (case json_loads L s of None \<Rightarrow> True | Some j \<Rightarrow> \<not> validate_schema L sc j)))"

definition corrupt :: "lib \<Rightarrow> bytes \<Rightarrow> schema option \<Rightarrow> regex option \<Rightarrow> string \<Rightarrow> bool" where
  "corrupt L key schema regex content =
     (if count_list content CHR ''.'' \<noteq> 1 then True
      else
        (case b64decode (fst (envelope_fields content)) of
           Inl e \<Rightarrow> True
         | Inr ct \<Rightarrow>
            (case b64decode (snd (envelope_fields content)) of
               Inl e \<Rightarrow> True
             | Inr n \<Rightarrow>
                (case chacha_decrypt L ct key n of
                   Inl e \<Rightarrow> e = InvalidTag \<or> is_ValueError e
                 | Inr pt \<Rightarrow> rejected_plaintext L schema regex pt))))"

text \<open>
  The contract of the absent cipher, from sections 4.1 and 8 of the specification:
  under a key \<open>k\<close>, what \<^verbatim>\<open>chacha_encrypt\<close> returns for \<open>p\<close> (a ciphertext and the nonce
  it drew) decrypts to \<open>p\<close>.
\<close>

definition cipher_round_trip :: "lib \<Rightarrow> bytes \<Rightarrow> bytes \<Rightarrow> bytes \<Rightarrow> bool" where
  "cipher_round_trip L p k rnd =
     (case chacha_encrypt L (Some (Bytes p)) k rnd of
        Inl e \<Rightarrow> False
      | Inr (ct, nonce) \<Rightarrow> chacha_decrypt L ct k nonce = Inr p)"

text \<open>A toy cipher for the concrete checks: the ciphertext is the reversed plaintext
  followed by the key as its tag, the nonce is the randomness drawn.\<close>

definition toy_plain :: "payload option \<Rightarrow> bytes" where
  "toy_plain d = (case d of Some (Bytes b) \<Rightarrow> b | Some (Str s) \<Rightarrow> s | _ \<Rightarrow> [])"

definition toy_decrypt :: "bytes \<Rightarrow> bytes \<Rightarrow> bytes \<Rightarrow> exn + bytes" where
  "toy_decrypt ct k n =
     (if length n \<noteq> 12 then Inl ValueError
      else if length ct < length k \<or> drop (length ct - length k) ct \<noteq> k then Inl InvalidTag
      else Inr (rev (take (length ct - length k) ct)))"

text \<open>A toy JSON codec: it writes an object of one string field and reads back the
  documents the concrete checks use.\<close>

definition toy_dumps :: "json \<Rightarrow> string" where
  "toy_dumps j =
     (case j of
        JObj [(k, JStr v)] \<Rightarrow>
          ''{'' @ [CHR 0x22] @ k @ [CHR 0x22] @ '': '' @ [CHR 0x22] @ v @ [CHR 0x22] @ ''}''
      | _ \<Rightarrow> ''null'')"

definition toy_documents :: "json list" where
  "toy_documents =
     [JObj [(''key_id_token'', JStr ''token-1'')],
      JObj [(''client_digest_method'', JStr ''sha512'')],
      JObj [(''session'', JStr ''abc123'')]]"

definition toy_loads :: "string \<Rightarrow> json option" where
  "toy_loads s =
     (case filter (\<lambda>j. toy_dumps j = s) toy_documents of
        j # js \<Rightarrow> Some j
      | [] \<Rightarrow>
          (if s = ''{}'' then Some (JObj [])
           else if s = ''null'' then Some JNull
           else None))"

definition toy_lib :: lib where
  "toy_lib = \<lparr>
     private_bytes_pem = (\<lambda>k. ''PRIVATE '' @ key_seed k),
     public_bytes_pem = (\<lambda>k. ''PUBLIC '' @ key_seed k),
     chacha_encrypt = (\<lambda>d k rnd. Inr (rev (toy_plain d) @ k, rnd)),
     chacha_decrypt = toy_decrypt,
     generate_chacha20_key = (\<lambda>rnd. take 32 rnd),
     rsa_encrypt = (\<lambda>pt digest. Inr (rev pt)),
     rsa_decrypt = (\<lambda>ct key digest. Inr (rev ct)),
     load_pem_private_key = (\<lambda>pem. Inr pem),
     utf8_decode = (\<lambda>b. if list_all (\<lambda>c. of_char c < (128::nat)) b then Some b else None),
     locale_decode = (\<lambda>b. None),
     linesep = [CHR 0x0A],
     json_loads = toy_loads,
     json_dumps = toy_dumps \<rparr>"

definition zero_key :: bytes where
  "zero_key = replicate 32 (CHR 0x00)"

definition toy_self :: user_data where
  "toy_self = \<lparr> private_key = ''priv'', public_key = ''pub'',
     client_digest_method = ''sha512'', server_digest_method = ''sha512'',
     data_path = FANTIA_COOKIE_PATH, secret_key = zero_key, data_attr = None \<rparr>"

definition no_files :: fs where
  "no_files = (\<lambda>p. None)"

text \<open>The envelope of \<open>session=abc123\<close> under the toy cipher and the zero key, with one
  character of the ciphertext field changed (the 19th, from \<open>A\<close> to \<open>B\<close>).\<close>

definition tampered_envelope :: string where
  "tampered_envelope =
     ''MzIxY2JhPW5vaXNzZXMBAAAAAAAAAAAAAAAAAAAAAAAAAAAAAAAAAAAAAAAAAA==.bm5ubm5ubm5ubm5u''"

definition tampered_fs :: fs where
  "tampered_fs = no_files(FANTIA_COOKIE_PATH \<mapsto> tampered_envelope)"

text \<open>Two more corrupt files: seven bytes of which the first two are not ASCII, and the
  file \<^verbatim>\<open>encrypt_data\<close> writes for the single byte \<open>ff\<close>.\<close>

definition undecodable_fs :: fs where
  "undecodable_fs =
     no_files(FANTIA_COOKIE_PATH \<mapsto>
       [CHR 0xFF, CHR 0xFE, CHR ''.'', CHR ''Q'', CHR ''Q'', CHR ''='', CHR ''=''])"

definition binary_fs :: fs where
  "binary_fs =
     snd (encrypt_data toy_lib toy_self (Some (Bytes [CHR 0xFF])) (replicate 12 CHR ''n'')
            no_files)"

subsection \<open>The escrow exchanges: \<^verbatim>\<open>get_csrf_token\<close>, \<^verbatim>\<open>__load_key\<close>, \<^verbatim>\<open>save_key\<close>\<close>

text \<open>
  An HTTP response as httpx hands it over: \<open>json_body\<close> is what \<^verbatim>\<open>res.json()\<close>
  returns, \<open>None\<close> when it raises \<^verbatim>\<open>JSONDecodeError\<close>. The network is the record \<open>net\<close>:
  the answer to the one \<^verbatim>\<open>GET /csrf-token\<close> and the answer to the one \<^verbatim>\<open>POST\<close> a method
  makes, given the endpoint, the JSON sent and the cookies; \<open>Inl\<close> is the exception the
  client raised.
\<close>

record response =
  status_code :: nat
  res_text :: string
  res_cookies :: string
  json_body :: "json option"

record net =
  csrf_get :: "exn + response"
  post :: "string \<Rightarrow> json \<Rightarrow> string \<Rightarrow> exn + response"

text \<open>\<^verbatim>\<open>functional.log_api_error\<close> (lines 49--63) logs the message and raises
  \<^verbatim>\<open>APIServerError\<close>; it never returns.\<close>

definition log_api_error :: "api_error \<Rightarrow> exn + 'a" where
  "log_api_error error_msg = Inl (APIServerError error_msg)"

text \<open>Python's \<^verbatim>\<open>"error" in json_data\<close> and \<^verbatim>\<open>json_data[key]\<close> on what \<^verbatim>\<open>res.json()\<close> can
  return: key membership in a dict, element membership in a list, substring in a string,
  \<^verbatim>\<open>TypeError\<close> on anything else; only a dict can be indexed by a string.\<close>

fun is_prefix :: "string \<Rightarrow> string \<Rightarrow> bool" where
  "is_prefix [] ys = True"
| "is_prefix (x # xs) [] = False"
| "is_prefix (x # xs) (y # ys) = (x = y \<and> is_prefix xs ys)"

fun is_substring :: "string \<Rightarrow> string \<Rightarrow> bool" where
  "is_substring xs [] = (xs = [])"
| "is_substring xs (y # ys) = (is_prefix xs (y # ys) \<or> is_substring xs ys)"

definition py_in :: "string \<Rightarrow> json \<Rightarrow> exn + bool" where
  "py_in k j =
     (case j of
        JObj kvs \<Rightarrow> Inr (k \<in> set (map fst kvs))
      | JArr xs \<Rightarrow> Inr (JStr k \<in> set xs)
      | JStr s \<Rightarrow> Inr (is_substring k s)
      | _ \<Rightarrow> Inl TypeError)"

definition subscript :: "json \<Rightarrow> string \<Rightarrow> exn + json" where
  "subscript j k =
     (case j of
        JObj kvs \<Rightarrow> (case map_of kvs k of None \<Rightarrow> Inl KeyError | Some v \<Rightarrow> Inr v)
      | _ \<Rightarrow> Inl TypeError)"

text \<open>
  Modelled from the spec: the pydantic schemas \<^verbatim>\<open>APICsrfResponse\<close>, \<^verbatim>\<open>APIKeyResponse\<close>,
  \<^verbatim>\<open>APIKeyIDResponse\<close> and \<^verbatim>\<open>KeyIdToken\<close> of the package \<^verbatim>\<open>schemas\<close>, which is not among
  the sources. Section 6 gives the shapes \<open>{csrf_token}\<close>, \<open>{secret_key}\<close> and
  \<open>{key_id_token}\<close>, section 3 the token document \<open>{key_id_token: <string>}\<close>: an object
  that carries the named field with a string value.
\<close>

definition attr_str :: "string \<Rightarrow> json \<Rightarrow> string option" where
  "attr_str k j =
     (case j of
        JObj kvs \<Rightarrow> (case map_of kvs k of Some (JStr s) \<Rightarrow> Some s | _ \<Rightarrow> None)
      | _ \<Rightarrow> None)"

definition APICsrfResponse :: schema where
  "APICsrfResponse j = (attr_str ''csrf_token'' j \<noteq> None)"

definition APIKeyResponse :: schema where
  "APIKeyResponse j = (attr_str ''secret_key'' j \<noteq> None)"

definition APIKeyIDResponse :: schema where
  "APIKeyIDResponse j = (attr_str ''key_id_token'' j \<noteq> None)"

definition KeyIdToken :: schema where
  "KeyIdToken j = (attr_str ''key_id_token'' j \<noteq> None)"

text \<open>\<^verbatim>\<open>validate_schema\<close> with \<^verbatim>\<open>return_bool=False\<close>: the parsed object, \<open>None\<close> for
  \<^verbatim>\<open>False\<close>.\<close>

definition validate_schema_obj :: "lib \<Rightarrow> schema \<Rightarrow> json \<Rightarrow> json option" where
  "validate_schema_obj L schema data_v =
     (case data_v of
        JStr s \<Rightarrow>
          (case json_loads L s of
             None \<Rightarrow> None
           | Some j \<Rightarrow> if schema j then Some j else None)
      | JObj kvs \<Rightarrow> if schema data_v then Some data_v else None
      | JArr xs \<Rightarrow> if schema data_v then Some data_v else None
      | _ \<Rightarrow> None)"

text \<open>The two checks every exchange runs on the decoded body (lines 262--265, 332--335
  and 392--395): an \<^verbatim>\<open>error\<close> entry is logged and raised, then a body that does not
  validate is.\<close>

definition check_body :: "lib \<Rightarrow> schema \<Rightarrow> json \<Rightarrow> exn + unit" where
  "check_body L schema json_data =
     (case py_in ''error'' json_data of
        Inl e \<Rightarrow> Inl e
      | Inr True \<Rightarrow>
          (case subscript json_data ''error'' of
             Inl e \<Rightarrow> Inl e
           | Inr m \<Rightarrow> log_api_error (ErrorField m))
      | Inr False \<Rightarrow>
          (if \<not> validate_schema L schema json_data then log_api_error InvalidJsonFormat
           else Inr ()))"

text \<open>\<^verbatim>\<open>get_csrf_token\<close> (lines 244--267). A connection or timeout error of the \<^verbatim>\<open>GET\<close> is
  logged and raised again.\<close>

definition get_csrf_token :: "lib \<Rightarrow> net \<Rightarrow> exn + json \<times> string" where
  "get_csrf_token L N =
     (case csrf_get N of
        Inl e \<Rightarrow> Inl e
      | Inr res \<Rightarrow>
          (if status_code res \<noteq> 200 \<and> status_code res \<noteq> 404
           then log_api_error (ReceivedStatus (status_code res) (res_text res))
           else
             (case json_body res of
                None \<Rightarrow> Inl JSONDecodeError
              | Some json_data \<Rightarrow>
                  (case check_body L APICsrfResponse json_data of
                     Inl e \<Rightarrow> Inl e
                   | Inr u \<Rightarrow>
                       (case subscript json_data ''csrf_token'' of
                          Inl e \<Rightarrow> Inl e
                        | Inr csrf_token \<Rightarrow> Inr (csrf_token, res_cookies res))))))"

text \<open>\<^verbatim>\<open>prepare_data_for_transmission\<close> (lines 200--214) and \<^verbatim>\<open>read_api_response\<close>
  (lines 216--227); the base64 decoding of what the server sent is not guarded.\<close>

definition prepare_data_for_transmission :: "lib \<Rightarrow> user_data \<Rightarrow> bytes \<Rightarrow> exn + string" where
  "prepare_data_for_transmission L self data_v =
     (case rsa_encrypt L data_v (server_digest_method self) of
        Inl e \<Rightarrow> Inl e
      | Inr ct \<Rightarrow> Inr (b64encode ct))"

definition read_api_response :: "lib \<Rightarrow> user_data \<Rightarrow> string \<Rightarrow> exn + bytes" where
  "read_api_response L self received_data =
     (case b64decode received_data of
        Inl e \<Rightarrow> Inl e
      | Inr ct \<Rightarrow>
          (case load_pem_private_key L (private_key self) of
             Inl e \<Rightarrow> Inl e
           | Inr key \<Rightarrow> rsa_decrypt L ct key (client_digest_method self)))"

text \<open>The body of a \<^verbatim>\<open>POST\<close>: the four fields common to both exchanges and the wrapped
  value under its own name.\<close>

definition request_json :: "user_data \<Rightarrow> json \<Rightarrow> string \<Rightarrow> string \<Rightarrow> json" where
  "request_json self csrf_token field wrapped =
     JObj [(''csrf_token'', csrf_token),
           (''server_digest_method'', JStr (server_digest_method self)),
           (''client_public_key'', JStr (public_key self)),
           (''client_digest_method'', JStr (client_digest_method self)),
           (field, JStr wrapped)]"

text \<open>Lines 279--295 of \<^verbatim>\<open>__load_key\<close>: the token document is read in text mode; a
  document that is not JSON, is \<^verbatim>\<open>null\<close> or does not validate leaves \<^verbatim>\<open>key_id_token\<close> at
  \<^verbatim>\<open>None\<close>. The \<^verbatim>\<open>except (json.JSONDecodeError, TypeError)\<close> around \<^verbatim>\<open>json.load(f)\<close> does not
  catch the \<^verbatim>\<open>UnicodeDecodeError\<close> of a document the locale's codec refuses.\<close>

definition read_key_id_token :: "lib \<Rightarrow> fs \<Rightarrow> exn + string option" where
  "read_key_id_token L fs =
     (case fs KEY_ID_TOKEN_JSON_PATH of
        None \<Rightarrow> Inr None
      | Some content \<Rightarrow>
          (case read_text L content of
             None \<Rightarrow> Inl UnicodeDecodeError
           | Some doc \<Rightarrow>
               (case json_loads L doc of
                  None \<Rightarrow> Inr None
                | Some key_id_token_json \<Rightarrow>
                    (if key_id_token_json = JNull then Inr None
                     else
                       (case validate_schema_obj L KeyIdToken key_id_token_json of
                          None \<Rightarrow> Inr None
                        | Some key_id_token_obj \<Rightarrow>
                            Inr (attr_str ''key_id_token'' key_id_token_obj))))))"

text \<open>Lines 300--338 of \<^verbatim>\<open>__load_key\<close>: the exchange with \<^verbatim>\<open>/get-key\<close> for a token.\<close>

definition fetch_key ::
  "lib \<Rightarrow> net \<Rightarrow> user_data \<Rightarrow> string \<Rightarrow> bytes \<Rightarrow> fs \<Rightarrow> (exn + bytes) \<times> fs" where
  "fetch_key L N self key_id_token rnd fs =
     (case get_csrf_token L N of
        Inl e \<Rightarrow> (Inl e, fs)
      | Inr (csrf_token, cookies) \<Rightarrow>
          (case prepare_data_for_transmission L self key_id_token of
             Inl e \<Rightarrow> (Inl e, fs)
           | Inr wrapped \<Rightarrow>
               (case post N ''/get-key''
                       (request_json self csrf_token ''key_id_token'' wrapped) cookies of
                  Inl e \<Rightarrow> (Inl e, fs)
                | Inr res \<Rightarrow>
                    (if status_code res \<noteq> 200 \<and> status_code res \<noteq> 404 \<and>
                        status_code res \<noteq> 400
                     then (log_api_error (ReceivedStatus (status_code res) (res_text res)), fs)
                     else if status_code res = 404
                     then (Inr (generate_chacha20_key L rnd), unlink KEY_ID_TOKEN_JSON_PATH fs)
                     else
                       (case json_body res of
                          None \<Rightarrow> (Inl JSONDecodeError, fs)
                        | Some json_data \<Rightarrow>
                            (case check_body L APIKeyResponse json_data of
                               Inl e \<Rightarrow> (Inl e, fs)
                             | Inr u \<Rightarrow>
                                 (case subscript json_data ''secret_key'' of
                                    Inl e \<Rightarrow> (Inl e, fs)
                                  | Inr (JStr received) \<Rightarrow>
                                      (read_api_response L self received, fs)
                                  | Inr other \<Rightarrow> (Inl TypeError, fs))))))))"

text \<open>Lines 279--338 of \<^verbatim>\<open>__load_key\<close>: what runs when no usable key file was found.\<close>

definition resolve_by_token ::
  "lib \<Rightarrow> net \<Rightarrow> user_data \<Rightarrow> bytes \<Rightarrow> fs \<Rightarrow> (exn + bytes) \<times> fs" where
  "resolve_by_token L N self rnd fs =
     (case read_key_id_token L fs of
        Inl e \<Rightarrow> (Inl e, fs)
      | Inr None \<Rightarrow> (Inr (generate_chacha20_key L rnd), fs)
      | Inr (Some key_id_token) \<Rightarrow> fetch_key L N self key_id_token rnd fs)"

text \<open>\<^verbatim>\<open>__load_key\<close> (lines 269--338).\<close>

definition load_key ::
  "lib \<Rightarrow> net \<Rightarrow> user_data \<Rightarrow> bytes \<Rightarrow> fs \<Rightarrow> (exn + bytes) \<times> fs" where
  "load_key L N self rnd fs =
     (case fs SECRET_KEY_PATH of
        None \<Rightarrow> resolve_by_token L N self rnd fs
      | Some secret \<Rightarrow>
          (if length secret = 32 then (Inr secret, fs)
           else resolve_by_token L N self rnd fs))"

text \<open>\<^verbatim>\<open>save_key\<close> (lines 340--404). Lines 365--404 are \<open>escrow_key\<close>; the inlined
  \<^verbatim>\<open>rsa_decrypt(b64decode(...), self.__format_private_key(), ..., decode=True)\<close> is
  \<^const>\<open>read_api_response\<close> followed by the UTF-8 decoding.\<close>

definition escrow_key ::
  "lib \<Rightarrow> net \<Rightarrow> user_data \<Rightarrow> fs \<Rightarrow> (exn + unit) \<times> fs" where
  "escrow_key L N self fs =
     (case get_csrf_token L N of
        Inl e \<Rightarrow> (Inl e, fs)
      | Inr (csrf_token, cookies) \<Rightarrow>
          (case prepare_data_for_transmission L self (secret_key self) of
             Inl e \<Rightarrow> (Inl e, fs)
           | Inr wrapped \<Rightarrow>
               (case post N ''/save-key''
                       (request_json self csrf_token ''secret_key'' wrapped) cookies of
                  Inl e \<Rightarrow> (Inl e, fs)
                | Inr res \<Rightarrow>
                    (if status_code res \<noteq> 200 \<and> status_code res \<noteq> 400
                     then (log_api_error (ReceivedStatus (status_code res) (res_text res)), fs)
                     else
                       (case json_body res of
                          None \<Rightarrow> (Inl JSONDecodeError, fs)
                        | Some body \<Rightarrow>
                            (case check_body L APIKeyIDResponse body of
                               Inl e \<Rightarrow> (Inl e, fs)
                             | Inr u \<Rightarrow>
                                 (case subscript body ''key_id_token'' of
                                    Inl e \<Rightarrow> (Inl e, fs)
                                  | Inr (JStr received) \<Rightarrow>
                                      (case read_api_response L self received of
                                         Inl e \<Rightarrow> (Inl e, fs)
                                       | Inr plain \<Rightarrow>
                                           (case utf8_decode L plain of
                                              None \<Rightarrow> (Inl UnicodeDecodeError, fs)
                                            | Some key_id_token \<Rightarrow>
                                                (Inr (),
                                                 write_file KEY_ID_TOKEN_JSON_PATH
                                                   (write_text L
                                                      (json_dumps L
                                                         (JObj [(''key_id_token'',
                                                                 JStr key_id_token)])))
                                                   fs)))
                                  | Inr other \<Rightarrow> (Inl TypeError, fs))))))))"

definition save_key ::
  "lib \<Rightarrow> net \<Rightarrow> user_data \<Rightarrow> bool \<Rightarrow> fs \<Rightarrow> (exn + unit) \<times> fs" where
  "save_key L N self save_locally fs =
     (if fs SECRET_KEY_PATH = Some (secret_key self) then (Inr (), fs)
      else if fs KEY_ID_TOKEN_JSON_PATH \<noteq> None then (Inr (), fs)
      else if save_locally then (Inr (), write_file SECRET_KEY_PATH (secret_key self) fs)
      else escrow_key L N self fs)"

text \<open>Concrete networks for the checks: a handshake that succeeds, and escrow services
  that answer 404 to \<^verbatim>\<open>/get-key\<close>, answer 500 to the handshake, or store the key and return
  the token \<open>token-1\<close> wrapped by the toy RSA.\<close>

definition csrf_ok :: response where
  "csrf_ok = \<lparr> status_code = 200, res_text = '''', res_cookies = ''session=1'',
     json_body = Some (JObj [(''csrf_token'', JStr ''csrf-1'')]) \<rparr>"

definition not_found :: response where
  "not_found = \<lparr> status_code = 404, res_text = ''not found'', res_cookies = [],
     json_body = None \<rparr>"

definition net_404 :: net where
  "net_404 = \<lparr> csrf_get = Inr csrf_ok, post = (\<lambda>url body cookies. Inr not_found) \<rparr>"

definition server_error :: response where
  "server_error = \<lparr> status_code = 500, res_text = ''oops'', res_cookies = [],
     json_body = None \<rparr>"

definition net_500 :: net where
  "net_500 = \<lparr> csrf_get = Inr server_error,
     post = (\<lambda>url body cookies. Inl ConnectError) \<rparr>"

definition wrapped_token :: string where
  "wrapped_token = b64encode (rev ''token-1'')"

definition net_save_ok :: net where
  "net_save_ok = \<lparr> csrf_get = Inr csrf_ok,
     post = (\<lambda>url body cookies.
       Inr \<lparr> status_code = 200, res_text = '''', res_cookies = '''',
            json_body = Some (JObj [(''key_id_token'', JStr wrapped_token)]) \<rparr>) \<rparr>"

definition token_doc :: string where
  "token_doc = toy_dumps (JObj [(''key_id_token'', JStr ''token-1'')])"

definition token_fs :: fs where
  "token_fs = no_files(KEY_ID_TOKEN_JSON_PATH \<mapsto> token_doc)"

definition short_key :: bytes where
  "short_key = replicate 31 (CHR 0x00)"

definition key_fs :: fs where
  "key_fs = token_fs(SECRET_KEY_PATH \<mapsto> zero_key)"

definition short_key_fs :: fs where
  "short_key_fs = no_files(SECRET_KEY_PATH \<mapsto> short_key)"

subsection \<open>The retry wrappers\<close>

text \<open>
  \<^verbatim>\<open>save_key_with_retries\<close> (lines 556--576) and \<^verbatim>\<open>load_key_with_retries\<close> (lines
  578--600). Both run \<^verbatim>\<open>for retry_counter in range(1, C.MAX_RETRIES + 1)\<close> around one
  attempt and share the \<^verbatim>\<open>except\<close> tuple
  \<^verbatim>\<open>(APIServerError, ConnectError, ReadTimeout, ConnectTimeout, JSONDecodeError)\<close>.
  An attempt is a step on a world \<open>'w\<close> (the disk, the network, the clock); the third
  component of the result counts the calls of \<^verbatim>\<open>time.sleep(C.RETRY_DELAY)\<close>. A loop that
  ends without \<^verbatim>\<open>return\<close> gives Python's \<^verbatim>\<open>None\<close>. \<^verbatim>\<open>C.MAX_RETRIES\<close> is a constant of the
  absent \<^verbatim>\<open>constants.py\<close> and so a parameter.
\<close>

definition caught :: "exn \<Rightarrow> bool" where
  "caught e =
     (case e of
        APIServerError m \<Rightarrow> True
      | ConnectError \<Rightarrow> True
      | ReadTimeout \<Rightarrow> True
      | ConnectTimeout \<Rightarrow> True
      | JSONDecodeError \<Rightarrow> True
      | _ \<Rightarrow> False)"

fun save_key_loop ::
  "('w \<Rightarrow> (exn + unit) \<times> 'w) \<Rightarrow> nat \<Rightarrow> nat list \<Rightarrow> 'w \<Rightarrow> nat \<Rightarrow>
     (exn + bool option) \<times> 'w \<times> nat" where
  "save_key_loop attempt max_retries [] w slept = (Inr None, w, slept)"
| "save_key_loop attempt max_retries (retry_counter # rest) w slept =
     (case attempt w of
        (Inr u, w') \<Rightarrow> (Inr (Some True), w', slept)
      | (Inl e, w') \<Rightarrow>
          (if caught e then
             (if retry_counter = max_retries then (Inr (Some False), w', slept)
              else save_key_loop attempt max_retries rest w' (slept + 1))
           else (Inl e, w', slept)))"

definition save_key_with_retries ::
  "('w \<Rightarrow> (exn + unit) \<times> 'w) \<Rightarrow> nat \<Rightarrow> 'w \<Rightarrow> (exn + bool option) \<times> 'w \<times> nat" where
  "save_key_with_retries attempt max_retries w =
     save_key_loop attempt max_retries [1..<max_retries + 1] w 0"

fun load_key_loop ::
  "('w \<Rightarrow> (exn + 'a) \<times> 'w) \<Rightarrow> nat \<Rightarrow> nat list \<Rightarrow> 'w \<Rightarrow> nat \<Rightarrow>
     (exn + 'a option) \<times> 'w \<times> nat" where
  "load_key_loop attempt max_retries [] w slept = (Inr None, w, slept)"
| "load_key_loop attempt max_retries (retry_counter # rest) w slept =
     (case attempt w of
        (Inr obj, w') \<Rightarrow> (Inr (Some obj), w', slept)
      | (Inl e, w') \<Rightarrow>
          (if caught e then
             (if retry_counter = max_retries then (Inr None, w', slept)
              else load_key_loop attempt max_retries rest w' (slept + 1))
           else (Inl e, w', slept)))"

definition load_key_with_retries ::
  "('w \<Rightarrow> (exn + 'a) \<times> 'w) \<Rightarrow> nat \<Rightarrow> 'w \<Rightarrow> (exn + 'a option) \<times> 'w \<times> nat" where
  "load_key_with_retries attempt max_retries w =
     load_key_loop attempt max_retries [1..<max_retries + 1] w 0"

text \<open>The world after \<open>n\<close> attempts, and what it means that the first \<open>n\<close> attempts all
  failed with an exception of the \<^verbatim>\<open>except\<close> tuple.\<close>

definition after_attempts :: "('w \<Rightarrow> (exn + 'a) \<times> 'w) \<Rightarrow> nat \<Rightarrow> 'w \<Rightarrow> 'w" where
  "after_attempts attempt n w = ((\<lambda>v. snd (attempt v)) ^^ n) w"

definition fails_caught :: "('w \<Rightarrow> (exn + 'a) \<times> 'w) \<Rightarrow> 'w \<Rightarrow> bool" where
  "fails_caught attempt w = (case fst (attempt w) of Inl e \<Rightarrow> caught e | Inr x \<Rightarrow> False)"

definition first_fail :: "('w \<Rightarrow> (exn + 'a) \<times> 'w) \<Rightarrow> nat \<Rightarrow> 'w \<Rightarrow> bool" where
  "first_fail attempt n w = list_all (\<lambda>i. fails_caught attempt (after_attempts attempt i w)) [0..<n]"

text \<open>One attempt of \<^verbatim>\<open>obj.save_key(save_locally=...)\<close> on a world that is the disk and the
  number of attempts made so far; the \<open>i\<close>-th attempt meets the network \<open>nets i\<close>.\<close>

definition save_key_attempt ::
  "lib \<Rightarrow> (nat \<Rightarrow> net) \<Rightarrow> user_data \<Rightarrow> bool \<Rightarrow> fs \<times> nat \<Rightarrow> (exn + unit) \<times> (fs \<times> nat)" where
  "save_key_attempt L nets self save_locally w =
     (case save_key L (nets (snd w)) self save_locally (fst w) of
        (r, fs') \<Rightarrow> (r, (fs', Suc (snd w))))"

definition flaky_nets :: "nat \<Rightarrow> net" where
  "flaky_nets i = (if i = 0 then net_500 else net_save_ok)"

definition always_500 :: "nat \<Rightarrow> net" where
  "always_500 i = net_500"

definition refused_attempt :: "nat \<Rightarrow> (exn + string) \<times> nat" where
  "refused_attempt i = (Inl ConnectError, Suc i)"

definition saved_fs :: fs where
  "saved_fs = no_files(KEY_ID_TOKEN_JSON_PATH \<mapsto> token_doc)"

subsection \<open>\<^verbatim>\<open>generate_rsa_key_pair\<close> and \<^verbatim>\<open>UserData.__init__\<close>\<close>


text \<open>
  The constants of \<^verbatim>\<open>constants.py\<close> and the schemas of the package \<^verbatim>\<open>schemas\<close> the
  constructor and the wrappers read, none of them among the sources, as parameters.
  A validated configuration is the JSON object it was parsed from; \<open>config_dict\<close> is its
  \<^verbatim>\<open>.dict()\<close>, \<open>config_defaults\<close> is the schema built with no arguments, and \<open>fix_download_directory\<close>
  is the check of the download directory at the end of \<^verbatim>\<open>load_configs\<close>.
\<close>

record constants =
  MAX_RETRIES :: nat
  IS_64BITS :: bool
  ConfigSchema :: schema
  config_defaults :: json
  config_dict :: "json \<Rightarrow> json"
  fix_download_directory :: "json \<Rightarrow> json"
  CookieSchema :: schema
  GOOGLE_API_KEY_REGEX :: regex
  PIXIV_REFRESH_TOKEN_REGEX :: regex
  DanbooruAuthSchema :: schema








record env =
  nets :: "nat \<Rightarrow> net"
  rsa_seeds :: "nat \<Rightarrow> bytes"
  key_seeds :: "nat \<Rightarrow> bytes"
  nonce_seeds :: "nat \<Rightarrow> bytes"


text \<open>Concrete constants for the checks: three attempts, a 64-bit platform, schemas that
  accept every object.\<close>

definition toy_consts :: constants where
  "toy_consts = \<lparr> MAX_RETRIES = 3, IS_64BITS = True,
     ConfigSchema = (\<lambda>j. True), config_defaults = JObj [],
     config_dict = (\<lambda>j. j), fix_download_directory = (\<lambda>j. j),
     CookieSchema = (\<lambda>j. True),
     GOOGLE_API_KEY_REGEX = (\<lambda>s. True), PIXIV_REFRESH_TOKEN_REGEX = (\<lambda>s. True),
     DanbooruAuthSchema = (\<lambda>j. True) \<rparr>"












subsection \<open>Saving and loading through the wrappers; the cookie threads\<close>








text \<open>
  \<^verbatim>\<open>BaseThread\<close> (lines 651--672) and its two subclasses (lines 674--730). \<^verbatim>\<open>run\<close> catches
  every exception of the work into \<^verbatim>\<open>self.exec\<close>; \<^verbatim>\<open>join\<close> waits for the thread and then
  raises what \<^verbatim>\<open>exec\<close> holds. The workers act on the shared world; the model lets each
  worker run to completion at the moment it is started, which is one of the schedules of
  the threads. What the manager does after starting them depends only on the \<^verbatim>\<open>exec\<close> and
  \<^verbatim>\<open>result\<close> the workers are left with, and the only way it waits for a worker is
  \<^verbatim>\<open>join\<close>: the second component of \<open>join_all\<close> counts the workers joined.
\<close>

record 'r base_thread =
  exec :: "exn option"
  result :: "'r option"

record save_cookie_thread = "bool base_thread" +
  cookie :: "json option"
  website :: string
  readable_website :: string
  save_locally :: bool






















section \<open>Properties\<close>

subsection \<open>Base64 decodes what it encoded\<close>

lemma distinct_alphabet: "distinct b64_alphabet"
  unfolding b64_alphabet_def by simp

lemma length_alphabet: "length b64_alphabet = 64"
  unfolding b64_alphabet_def by simp

lemma index_of_nth: "distinct xs \<Longrightarrow> n < length xs \<Longrightarrow> index_of (xs ! n) xs = Some n"
proof (induction xs arbitrary: n)
  case Nil then show ?case by simp
next
  case (Cons x xs)
  show ?case
  proof (cases n)
    case 0 then show ?thesis by simp
  next
    case (Suc m)
    with Cons.prems have "xs ! m \<noteq> x" "m < length xs" "distinct xs" by auto
    with Cons.IH[of m] Suc show ?thesis by simp
  qed
qed

lemma b64index_b64char: "n < 64 \<Longrightarrow> b64index (b64char n) = Some n"
  unfolding b64index_def b64char_def
  by (rule index_of_nth[OF distinct_alphabet]) (simp add: length_alphabet)

lemma b64char_in: "n < 64 \<Longrightarrow> b64char n \<in> set b64_alphabet"
  unfolding b64char_def by (simp add: length_alphabet)

lemma eq_notin: "CHR ''='' \<notin> set b64_alphabet" "CHR ''.'' \<notin> set b64_alphabet"
  unfolding b64_alphabet_def by simp_all

lemma b64char_neq: "n < 64 \<Longrightarrow> b64char n \<noteq> CHR ''=''" "n < 64 \<Longrightarrow> b64char n \<noteq> CHR ''.''"
  using b64char_in eq_notin by metis+


lemma of_char_lt: "of_char (c::char) < (256::nat)"
  by (metis of_char_mod_256 mod_less_divisor zero_less_numeral)

lemma sextet_bounds:
  assumes "A < (256::nat)" "B < (256::nat)"
  shows "A div 4 < 64" "A mod 4 * 16 + B div 16 < 64" "A mod 16 * 4 + B div 64 < 64"
    "A mod 64 < 64" "A mod 4 * 16 < 64" "A mod 16 * 4 < 64"
  using assms by auto

lemma join1: "B < (256::nat) \<Longrightarrow> A div 4 * 4 + (A mod 4 * 16 + B div 16) div 16 = A"
  by auto
lemma join1': "A div 4 * 4 + (A mod 4 * 16) div 16 = (A::nat)"
  by auto
lemma left1: "B < (256::nat) \<Longrightarrow> (A mod 4 * 16 + B div 16) mod 16 = B div 16"
  by auto
lemma join2: "C < (256::nat) \<Longrightarrow> B div 16 * 16 + (B mod 16 * 4 + C div 64) div 4 = B"
  by auto
lemma join2': "B div 16 * 16 + (B mod 16 * 4) div 4 = (B::nat)"
  by auto
lemma left2: "C < (256::nat) \<Longrightarrow> (B mod 16 * 4 + C div 64) mod 4 = C div 64"
  by auto
lemma join3: "C div 64 * 64 + C mod 64 = (C::nat)"
  by auto

lemma a2b_data:
  assumes "v < 64"
  shows "a2b_base64 q l p (b64char v # cs) =
            (if q = 0 then a2b_base64 1 v 0 cs
             else if q = 1 then
               emit (char_of (l * 4 + v div 16)) (a2b_base64 2 (v mod 16) 0 cs)
             else if q = 2 then
               emit (char_of (l * 16 + v div 4)) (a2b_base64 3 (v mod 4) 0 cs)
             else emit (char_of (l * 64 + v)) (a2b_base64 0 0 0 cs))"
  using assms by (simp add: b64index_b64char b64char_neq)

lemma sextets_lt:
  "(of_char a :: nat) div 4 < 64"
  "(of_char a :: nat) mod 4 * 16 + (of_char b :: nat) div 16 < 64"
  "(of_char a :: nat) mod 16 * 4 + (of_char b :: nat) div 64 < 64"
  "(of_char a :: nat) mod 64 < 64"
  "(of_char a :: nat) mod 4 * 16 < 64"
  "(of_char a :: nat) mod 16 * 4 < 64"
  using sextet_bounds[OF of_char_lt[of a] of_char_lt[of b]] by blast+

lemma a2b_quad:
  assumes "s0 < 64" "s1 < 64" "s2 < 64" "s3 < 64"
  shows "a2b_base64 0 l p (b64char s0 # b64char s1 # b64char s2 # b64char s3 # cs) =
     emit (char_of (s0 * 4 + s1 div 16))
       (emit (char_of (s1 mod 16 * 16 + s2 div 4))
         (emit (char_of (s2 mod 4 * 64 + s3)) (a2b_base64 0 0 0 cs)))"
  using assms by (simp add: a2b_data del: a2b_base64.simps)

lemma a2b_triple:
  assumes "s0 < 64" "s1 < 64" "s2 < 64"
  shows "a2b_base64 0 l p (b64char s0 # b64char s1 # b64char s2 # CHR ''='' # cs) =
     emit (char_of (s0 * 4 + s1 div 16))
       (emit (char_of (s1 mod 16 * 16 + s2 div 4)) (Inr []))"
  using assms by (simp add: a2b_data del: a2b_base64.simps) simp

lemma a2b_pair:
  assumes "s0 < 64" "s1 < 64"
  shows "a2b_base64 0 l p (b64char s0 # b64char s1 # CHR ''='' # CHR ''='' # cs) =
     emit (char_of (s0 * 4 + s1 div 16)) (Inr [])"
  using assms by (simp add: a2b_data del: a2b_base64.simps) simp

lemma byte1:
  "char_of ((of_char a :: nat) div 4 * 4 + (of_char a mod 4 * 16 + (of_char b :: nat) div 16) div 16) = a"
proof -
  have "(of_char a :: nat) div 4 * 4 + (of_char a mod 4 * 16 + (of_char b :: nat) div 16) div 16
      = of_char a"
    by (rule join1) (rule of_char_lt)
  then show ?thesis by simp
qed

lemma byte1':
  "char_of ((of_char a :: nat) div 4 * 4 + (of_char a mod 4 * 16) div 16) = a"
proof -
  have "(of_char a :: nat) div 4 * 4 + (of_char a mod 4 * 16) div 16 = of_char a"
    by (rule join1')
  then show ?thesis by simp
qed

lemma byte2:
  "char_of (((of_char a :: nat) mod 4 * 16 + (of_char b :: nat) div 16) mod 16 * 16 +
      (of_char b mod 16 * 4 + (of_char c :: nat) div 64) div 4) = b"
proof -
  have l: "((of_char a :: nat) mod 4 * 16 + (of_char b :: nat) div 16) mod 16 = of_char b div 16"
    by (rule left1) (rule of_char_lt)
  have "(of_char b :: nat) div 16 * 16 + (of_char b mod 16 * 4 + (of_char c :: nat) div 64) div 4
      = of_char b"
    by (rule join2) (rule of_char_lt)
  with l show ?thesis by simp
qed

lemma byte2':
  "char_of (((of_char a :: nat) mod 4 * 16 + (of_char b :: nat) div 16) mod 16 * 16 +
      (of_char b mod 16 * 4) div 4) = b"
proof -
  have l: "((of_char a :: nat) mod 4 * 16 + (of_char b :: nat) div 16) mod 16 = of_char b div 16"
    by (rule left1) (rule of_char_lt)
  have "(of_char b :: nat) div 16 * 16 + (of_char b mod 16 * 4) div 4 = of_char b"
    by (rule join2')
  with l show ?thesis by simp
qed

lemma byte3:
  "char_of (((of_char b :: nat) mod 16 * 4 + (of_char c :: nat) div 64) mod 4 * 64 +
      of_char c mod 64) = c"
proof -
  have l: "((of_char b :: nat) mod 16 * 4 + (of_char c :: nat) div 64) mod 4 = of_char c div 64"
    by (rule left2) (rule of_char_lt)
  have "(of_char c :: nat) div 64 * 64 + of_char c mod 64 = of_char c"
    by (rule join3)
  with l show ?thesis by simp
qed

lemma a2b_base64_b64encode: "a2b_base64 0 0 0 (b64encode bs) = Inr bs"
proof (induction bs rule: b64encode.induct)
  case (1 a b c rest)
  have "a2b_base64 0 0 0 (b64encode (a # b # c # rest)) =
      emit a (emit b (emit c (a2b_base64 0 0 0 (b64encode rest))))"
    unfolding b64encode.simps
    by (subst a2b_quad) (simp_all only: sextets_lt byte1 byte2 byte3)
  with 1 show ?case by (simp add: emit_def)
next
  case (2 a b)
  have "a2b_base64 0 0 0 (b64encode [a, b]) = emit a (emit b (Inr []))"
    unfolding b64encode.simps
    by (subst a2b_triple) (simp_all only: sextets_lt byte1 byte2')
  then show ?case by (simp add: emit_def)
next
  case (3 a)
  have "a2b_base64 0 0 0 (b64encode [a]) = emit a (Inr [])"
    unfolding b64encode.simps
    by (subst a2b_pair) (simp_all only: sextets_lt byte1')
  then show ?case by (simp add: emit_def)
next
  case 4
  then show ?case by simp
qed

lemma alphabet_ascii: "list_all (\<lambda>c. of_char c < (128::nat)) b64_alphabet"
  unfolding b64_alphabet_def by simp

lemma b64encode_chars:
  "set (b64encode bs) \<subseteq> insert CHR ''='' (set b64_alphabet)"
proof (induction bs rule: b64encode.induct)
  case (1 a b c rest)
  with b64char_in sextets_lt show ?case by simp
next
  case (2 a b)
  with b64char_in sextets_lt show ?case by simp
next
  case (3 a)
  with b64char_in sextets_lt show ?case by simp
next
  case 4
  then show ?case by simp
qed

lemma b64encode_no_dot: "CHR ''.'' \<notin> set (b64encode bs)"
  using b64encode_chars[of bs] eq_notin(2) by auto

lemma b64encode_ascii: "list_all (\<lambda>c. of_char c < (128::nat)) (b64encode bs)"
  using b64encode_chars[of bs] alphabet_ascii by (auto simp: list_all_iff)

lemma b64decode_b64encode: "b64decode (b64encode bs) = Inr bs"
  by (simp add: b64decode_def b64encode_ascii a2b_base64_b64encode)

subsection \<open>Splitting at dots\<close>

lemma split_dot_not_Nil: "split_dot s \<noteq> []"
  by (induction s) (auto split: list.splits)

lemma split_dot_no_dot: "CHR ''.'' \<notin> set a \<Longrightarrow> split_dot a = [a]"
  by (induction a) auto

lemma split_dot_append:
  "CHR ''.'' \<notin> set a \<Longrightarrow> split_dot (a @ CHR ''.'' # b) = a # split_dot b"
  by (induction a) auto

lemma length_split_dot: "length (split_dot s) = Suc (count_list s CHR ''.'')"
  by (induction s) (auto split: list.splits simp: split_dot_not_Nil)

lemma count_list_0_notin: "count_list s c = 0 \<Longrightarrow> c \<notin> set s"
  by (induction s) (auto split: if_splits)

lemma split_dot_single:
  assumes "count_list s CHR ''.'' = 1"
  shows "split_dot s = [fst (envelope_fields s), snd (envelope_fields s)]"
  using assms
proof (induction s)
  case Nil
  then show ?case by simp
next
  case (Cons c cs)
  show ?case
  proof (cases "c = CHR ''.''")
    case True
    with Cons.prems have "count_list cs CHR ''.'' = 0" by simp
    then have "CHR ''.'' \<notin> set cs" by (rule count_list_0_notin)
    then show ?thesis using True by (simp add: envelope_fields_def split_dot_no_dot)
  next
    case False
    with Cons.prems have "count_list cs CHR ''.'' = 1" by simp
    from Cons.IH[OF this] False show ?thesis by (simp add: envelope_fields_def)
  qed
qed

lemma split_dot_envelope:
  "split_dot (b64encode x @ ''.'' @ b64encode y) = [b64encode x, b64encode y]"
  using split_dot_append[OF b64encode_no_dot, of x "b64encode y"]
  by (simp add: split_dot_no_dot[OF b64encode_no_dot])

subsection \<open>Text files\<close>

lemma universal_newlines_id: "CHR 0x0D \<notin> set s \<Longrightarrow> universal_newlines s = s"
  by (induction s rule: universal_newlines.induct) auto

lemma write_text_id: "CHR 0x0A \<notin> set s \<Longrightarrow> write_text L s = s"
  by (induction s) (auto simp: write_text_def)

lemma read_text_ascii:
  "list_all (\<lambda>c. of_char c < (128::nat)) s \<Longrightarrow> CHR 0x0D \<notin> set s \<Longrightarrow> read_text L s = Some s"
  by (simp add: read_text_def universal_newlines_id)

lemma newlines_notin: "CHR 0x0D \<notin> set b64_alphabet" "CHR 0x0A \<notin> set b64_alphabet"
  unfolding b64_alphabet_def by simp_all

lemma b64encode_no_newline: "CHR 0x0D \<notin> set (b64encode bs)" "CHR 0x0A \<notin> set (b64encode bs)"
  using b64encode_chars[of bs] newlines_notin by auto

lemma envelope_written:
  "write_text L (b64encode x @ ''.'' @ b64encode y) = b64encode x @ ''.'' @ b64encode y"
  by (rule write_text_id) (simp add: b64encode_no_newline)

lemma envelope_read:
  "read_text L (b64encode x @ ''.'' @ b64encode y) = Some (b64encode x @ ''.'' @ b64encode y)"
proof (rule read_text_ascii)
  show "list_all (\<lambda>c. of_char c < (128::nat)) (b64encode x @ ''.'' @ b64encode y)"
    using b64encode_ascii[of x] b64encode_ascii[of y] by simp
  show "CHR 0x0D \<notin> set (b64encode x @ ''.'' @ b64encode y)"
    by (simp add: b64encode_no_newline)
qed

subsection \<open>Saving and loading a secret\<close>

lemma decrypt_data_envelope_any:
  assumes "fs (data_path self) = Some (b64encode ct @ ''.'' @ b64encode n)"
    and "chacha_decrypt L ct (secret_key self) n = Inr p"
    and "\<not> (schema \<noteq> None \<and> regex \<noteq> None)"
  shows "decrypt_data L self d schema regex fs =
     validate_decrypted L (data_path self) (d \<or> schema \<noteq> None \<or> regex \<noteq> None)
       schema regex p fs"
proof -
  have e: "(if \<not> d \<and> (schema \<noteq> None \<or> regex \<noteq> None) then True else d) =
      (d \<or> schema \<noteq> None \<or> regex \<noteq> None)" by auto
  have g: "(schema \<noteq> None \<and> regex \<noteq> None) = False" using assms(3) by simp
  show ?thesis
    unfolding decrypt_data_def Let_def e g
    using assms(1,2)
    by (simp add: envelope_read split_dot_envelope b64decode_b64encode
        del: append.simps)
qed

lemma decrypt_data_envelope:
  assumes "fs (data_path self) = Some (b64encode ct @ ''.'' @ b64encode n)"
    and "chacha_decrypt L ct (secret_key self) n = Inr p"
  shows "decrypt_data L self False None None fs = (Inr (Some (Bytes p)), fs)"
proof -
  have v: "\<not> ((None :: schema option) \<noteq> None \<and> (None :: regex option) \<noteq> None)" by simp
  show ?thesis
    unfolding decrypt_data_envelope_any[where fs = fs and self = self and L = L
        and schema = None and regex = None and d = False, OF assms v]
    by (simp add: validate_decrypted_def)
qed

text \<open>
  C1. For every byte string \<open>p\<close> and every 32-byte key \<open>k\<close> on which the cipher keeps
  its contract, \<^verbatim>\<open>encrypt_data\<close> succeeds, leaves
  \<open>base64(ciphertext) + "." + base64(nonce)\<close> at the data path, and \<^verbatim>\<open>decrypt_data\<close>
  with \<^verbatim>\<open>decode=False\<close>, no schema and no regex then returns exactly \<open>p\<close> and leaves the
  file in place.
\<close>

theorem encrypt_decrypt_round_trip:
  assumes "length k = 32" and "secret_key self = k" and "cipher_round_trip L p k rnd"
  shows "\<exists>ct nonce.
      chacha_encrypt L (Some (Bytes p)) k rnd = Inr (ct, nonce) \<and>
      encrypt_data L self (Some (Bytes p)) rnd fs =
        (Inr (), fs(data_path self \<mapsto> b64encode ct @ ''.'' @ b64encode nonce)) \<and>
      decrypt_data L self False None None (snd (encrypt_data L self (Some (Bytes p)) rnd fs)) =
        (Inr (Some (Bytes p)), snd (encrypt_data L self (Some (Bytes p)) rnd fs))"
proof -
  from assms(3) obtain ct nonce where
    enc: "chacha_encrypt L (Some (Bytes p)) k rnd = Inr (ct, nonce)" and
    dec: "chacha_decrypt L ct k nonce = Inr p"
    by (auto simp: cipher_round_trip_def split: sum.splits prod.splits)
  let ?fs' = "fs(data_path self \<mapsto> b64encode ct @ ''.'' @ b64encode nonce)"
  have w: "encrypt_data L self (Some (Bytes p)) rnd fs = (Inr (), ?fs')"
    using enc assms(2) by (simp add: encrypt_data_def write_file_def envelope_written
        del: append.simps)
  have "decrypt_data L self False None None ?fs' = (Inr (Some (Bytes p)), ?fs')"
    by (rule decrypt_data_envelope) (use dec assms(2) in simp_all)
  with enc w show ?thesis by simp
qed

lemma toy_round_trip: "cipher_round_trip toy_lib p k (replicate 12 c)"
  by (simp add: cipher_round_trip_def toy_lib_def toy_decrypt_def toy_plain_def)

theorem encrypt_decrypt_round_trip_witness:
  "length zero_key = 32 \<and> secret_key toy_self = zero_key \<and>
   cipher_round_trip toy_lib ''session=abc123'' zero_key (replicate 12 CHR ''n'') \<and>
   decrypt_data toy_lib toy_self False None None
     (snd (encrypt_data toy_lib toy_self (Some (Bytes ''session=abc123''))
        (replicate 12 CHR ''n'') no_files)) =
     (Inr (Some (Bytes ''session=abc123'')),
      snd (encrypt_data toy_lib toy_self (Some (Bytes ''session=abc123''))
        (replicate 12 CHR ''n'') no_files))"
proof -
  have k: "length zero_key = 32" by (simp add: zero_key_def)
  have s: "secret_key toy_self = zero_key" by (simp add: toy_self_def)
  have c: "cipher_round_trip toy_lib ''session=abc123'' zero_key (replicate 12 CHR ''n'')"
    by (rule toy_round_trip)
  from encrypt_decrypt_round_trip[OF k s c, of no_files] k s c show ?thesis by blast
qed

text \<open>
  What the load does heal. With at most one of schema and regex given and a data file
  that could be read as text: when the text is corrupt (no single-dot envelope, a field
  that is not base64, a ciphertext that fails authentication, a UTF-8 plaintext the regex
  does not match or, with a schema, that is not JSON or not of the schema) the file is
  deleted and the load returns \<^verbatim>\<open>None\<close>; when the file does not exist the load returns
  \<^verbatim>\<open>None\<close> and the store is unchanged.
\<close>

lemma decrypt_data_heals:
  assumes "\<not> (schema \<noteq> None \<and> regex \<noteq> None)"
  shows "(fs (data_path self) = Some bs \<and> read_text L bs = Some content \<and>
          corrupt L (secret_key self) schema regex content \<longrightarrow>
            decrypt_data L self decode schema regex fs =
              (Inr None, fs(data_path self := None))) \<and>
         (fs (data_path self) = None \<longrightarrow>
            decrypt_data L self decode schema regex fs = (Inr None, fs))"
proof (intro conjI impI)
  assume "fs (data_path self) = None"
  with assms show "decrypt_data L self decode schema regex fs = (Inr None, fs)"
    by (auto simp: decrypt_data_def)
next
  assume a: "fs (data_path self) = Some bs \<and> read_text L bs = Some content \<and>
    corrupt L (secret_key self) schema regex content"
  then have f: "fs (data_path self) = Some bs" "read_text L bs = Some content"
    and c: "corrupt L (secret_key self) schema regex content" by simp_all
  have g: "(schema \<noteq> None \<and> regex \<noteq> None) = False" using assms by simp
  show "decrypt_data L self decode schema regex fs = (Inr None, fs(data_path self := None))"
  proof (cases "count_list content CHR ''.'' = 1")
    case False
    then have "length (split_dot content) \<noteq> 2" by (simp add: length_split_dot)
    then show ?thesis unfolding decrypt_data_def g using f
      by (auto simp: unlink_def Let_def split: list.splits)
  next
    case True
    note sp = split_dot_single[OF True]
    from c True have c': "(case b64decode (fst (envelope_fields content)) of
           Inl e \<Rightarrow> True
         | Inr ct \<Rightarrow>
            (case b64decode (snd (envelope_fields content)) of
               Inl e \<Rightarrow> True
             | Inr n \<Rightarrow>
                (case chacha_decrypt L ct (secret_key self) n of
                   Inl e \<Rightarrow> e = InvalidTag \<or> is_ValueError e
                 | Inr pt \<Rightarrow> rejected_plaintext L schema regex pt)))"
      by (simp add: corrupt_def)
    show ?thesis
    proof (cases "b64decode (fst (envelope_fields content))")
      case (Inl e)
      then show ?thesis unfolding decrypt_data_def g using f sp
        by (simp add: unlink_def Let_def)
    next
      case ct: (Inr ct)
      show ?thesis
      proof (cases "b64decode (snd (envelope_fields content))")
        case (Inl e)
        then show ?thesis unfolding decrypt_data_def g using f sp ct
          by (simp add: unlink_def Let_def)
      next
        case n: (Inr n)
        show ?thesis
        proof (cases "chacha_decrypt L ct (secret_key self) n")
          case (Inl e)
          with c' ct n have "e = InvalidTag \<or> is_ValueError e" by simp
          then show ?thesis unfolding decrypt_data_def g using f sp ct n Inl
            by (auto simp: unlink_def Let_def)
        next
          case (Inr pt)
          with c' ct n have r: "rejected_plaintext L schema regex pt" by simp
          then obtain s where s: "utf8_decode L pt = Some s"
            by (auto simp: rejected_plaintext_def split: option.splits)
          from r s have d: "schema \<noteq> None \<or> regex \<noteq> None"
            by (auto simp: rejected_plaintext_def split: option.splits)
          have "validate_decrypted L (data_path self) True schema regex pt fs =
              (Inr None, fs(data_path self := None))"
            using r s assms
            by (auto simp: validate_decrypted_def rejected_plaintext_def unlink_def
                split: option.splits)
          then show ?thesis unfolding decrypt_data_def g using f sp ct n Inr d
            by (auto simp: Let_def)
        qed
      qed
    qed
  qed
qed

lemma tampered_corrupt: "corrupt toy_lib zero_key None None tampered_envelope"
  by code_simp

lemma tampered_read: "read_text toy_lib tampered_envelope = Some tampered_envelope"
  by code_simp

lemma decrypt_data_heals_tampered:
  "decrypt_data toy_lib toy_self True None None tampered_fs =
     (Inr None, tampered_fs(data_path toy_self := None))"
proof -
  have v: "\<not> ((None :: schema option) \<noteq> None \<and> (None :: regex option) \<noteq> None)" by simp
  have f: "tampered_fs (data_path toy_self) = Some tampered_envelope"
    by (simp add: tampered_fs_def toy_self_def)
  have c: "corrupt toy_lib (secret_key toy_self) None None tampered_envelope"
    using tampered_corrupt by (simp add: toy_self_def)
  from decrypt_data_heals[OF v, where fs = tampered_fs and self = toy_self
      and bs = tampered_envelope and content = tampered_envelope and L = toy_lib
      and decode = True] f c tampered_read
  show ?thesis by blast
qed

text \<open>
  C2. The claim does not hold of the code at two kinds of corrupt file. A data file whose
  bytes the locale's codec refuses (here \<open>ff fe 2e 51 51 3d 3d\<close>, under a codec that
  accepts ASCII only): the read in text mode raises \<^verbatim>\<open>UnicodeDecodeError\<close> to the caller,
  with or without a schema, and the file is still there. A data file that decrypts to
  bytes that are not UTF-8 (here the envelope \<^verbatim>\<open>encrypt_data\<close> itself writes for the one
  byte \<open>ff\<close>), loaded with a schema declared: \<^verbatim>\<open>decode("utf-8")\<close> raises
  \<^verbatim>\<open>UnicodeDecodeError\<close> to the caller and the file is still there.
\<close>

theorem decrypt_data_raises_on_undecodable:
  "decrypt_data toy_lib toy_self True None None undecodable_fs =
     (Inl UnicodeDecodeError, undecodable_fs) \<and>
   decrypt_data toy_lib toy_self True (Some (CookieSchema toy_consts)) None undecodable_fs =
     (Inl UnicodeDecodeError, undecodable_fs) \<and>
   undecodable_fs (data_path toy_self) =
     Some [CHR 0xFF, CHR 0xFE, CHR ''.'', CHR ''Q'', CHR ''Q'', CHR ''='', CHR ''=''] \<and>
   decrypt_data toy_lib toy_self True (Some (CookieSchema toy_consts)) None binary_fs =
     (Inl UnicodeDecodeError, binary_fs) \<and>
   binary_fs (data_path toy_self) =
     Some (b64encode (CHR 0xFF # zero_key) @ ''.'' @ b64encode (replicate 12 CHR ''n''))"
proof -
  have r: "read_text toy_lib [CHR 0xFF, CHR 0xFE, CHR ''.'', CHR ''Q'', CHR ''Q'', CHR ''='', CHR ''='']
      = None"
    by (simp add: read_text_def toy_lib_def)
  have p: "undecodable_fs (data_path toy_self) =
      Some [CHR 0xFF, CHR 0xFE, CHR ''.'', CHR ''Q'', CHR ''Q'', CHR ''='', CHR ''='']"
    by (simp add: undecodable_fs_def toy_self_def)
  have 1: "decrypt_data toy_lib toy_self True None None undecodable_fs =
     (Inl UnicodeDecodeError, undecodable_fs)"
    unfolding decrypt_data_def using p r by (simp add: Let_def)
  have 2: "decrypt_data toy_lib toy_self True (Some (CookieSchema toy_consts)) None undecodable_fs =
     (Inl UnicodeDecodeError, undecodable_fs)"
    unfolding decrypt_data_def using p r by (simp add: Let_def)
  have w: "encrypt_data toy_lib toy_self (Some (Bytes [CHR 0xFF])) (replicate 12 CHR ''n'')
      no_files =
      (Inr (), no_files(data_path toy_self \<mapsto>
         b64encode (CHR 0xFF # zero_key) @ ''.'' @ b64encode (replicate 12 CHR ''n'')))"
  proof -
    have c: "chacha_encrypt toy_lib (Some (Bytes [CHR 0xFF])) (secret_key toy_self)
        (replicate 12 CHR ''n'') = Inr (CHR 0xFF # zero_key, replicate 12 CHR ''n'')"
      by (simp add: toy_lib_def toy_plain_def toy_self_def)
    show ?thesis
      by (simp add: encrypt_data_def c write_file_def envelope_written
          del: append.simps b64encode.simps)
  qed
  then have b: "binary_fs (data_path toy_self) =
     Some (b64encode (CHR 0xFF # zero_key) @ ''.'' @ b64encode (replicate 12 CHR ''n''))"
    by (simp add: binary_fs_def del: append.simps b64encode.simps)
  have d: "chacha_decrypt toy_lib (CHR 0xFF # zero_key) (secret_key toy_self)
      (replicate 12 CHR ''n'') = Inr [CHR 0xFF]"
    by (simp add: toy_lib_def toy_decrypt_def toy_self_def zero_key_def)
  have v: "\<not> (Some (CookieSchema toy_consts) \<noteq> None \<and> (None :: regex option) \<noteq> None)" by simp
  have 3: "decrypt_data toy_lib toy_self True (Some (CookieSchema toy_consts)) None binary_fs =
     (Inl UnicodeDecodeError, binary_fs)"
    unfolding decrypt_data_envelope_any[where fs = binary_fs and self = toy_self
        and L = toy_lib and d = True, OF b d v]
    by (simp add: validate_decrypted_def toy_lib_def)
  show ?thesis using 1 2 p 3 b by (intro conjI)
qed

theorem decrypt_data_raises_on_undecodable_witness:
  "fst (decrypt_data toy_lib toy_self True None None undecodable_fs) = Inl UnicodeDecodeError \<and>
   snd (decrypt_data toy_lib toy_self True None None undecodable_fs) (data_path toy_self) =
     Some [CHR 0xFF, CHR 0xFE, CHR ''.'', CHR ''Q'', CHR ''Q'', CHR ''='', CHR ''=''] \<and>
   fst (decrypt_data toy_lib toy_self True (Some (CookieSchema toy_consts)) None binary_fs) =
     Inl UnicodeDecodeError \<and>
   snd (decrypt_data toy_lib toy_self True (Some (CookieSchema toy_consts)) None binary_fs)
     (data_path toy_self) =
     Some (b64encode (CHR 0xFF # zero_key) @ ''.'' @ b64encode (replicate 12 CHR ''n''))"
proof -
  note t = decrypt_data_raises_on_undecodable
  have 1: "decrypt_data toy_lib toy_self True None None undecodable_fs =
      (Inl UnicodeDecodeError, undecodable_fs)"
    by (rule t[THEN conjunct1])
  have 2: "undecodable_fs (data_path toy_self) =
      Some [CHR 0xFF, CHR 0xFE, CHR ''.'', CHR ''Q'', CHR ''Q'', CHR ''='', CHR ''='']"
    by (rule t[THEN conjunct2, THEN conjunct2, THEN conjunct1])
  have 3: "decrypt_data toy_lib toy_self True (Some (CookieSchema toy_consts)) None binary_fs =
      (Inl UnicodeDecodeError, binary_fs)"
    by (rule t[THEN conjunct2, THEN conjunct2, THEN conjunct2, THEN conjunct1])
  have 4: "binary_fs (data_path toy_self) =
      Some (b64encode (CHR 0xFF # zero_key) @ ''.'' @ b64encode (replicate 12 CHR ''n''))"
    by (rule t[THEN conjunct2, THEN conjunct2, THEN conjunct2, THEN conjunct2])
  show ?thesis unfolding 1 3 fst_conv snd_conv using 2 4 by (intro conjI) (rule refl | assumption)+
qed






subsection \<open>Key resolution\<close>

text \<open>
  C4. A key file of exactly 32 bytes is returned as the key, whatever the token document,
  the library and the network are, and nothing on disk changes. A key file of any other
  length is ignored: resolution returns what it returns with the file absent, and does to
  the other files what it does with the file absent; the ignored file itself stays.
\<close>

lemma fetch_key_frame:
  "fs' p = fs p \<Longrightarrow> p \<noteq> KEY_ID_TOKEN_JSON_PATH \<Longrightarrow>
     snd (fetch_key L N self t rnd fs') p = snd (fetch_key L N self t rnd fs) p"
  by (auto simp: fetch_key_def unlink_def log_api_error_def
      split: sum.splits prod.splits option.splits json.splits)

lemma fetch_key_update:
  "fetch_key L N self t rnd (fs(SECRET_KEY_PATH := v)) =
     (fst (fetch_key L N self t rnd fs), (snd (fetch_key L N self t rnd fs))(SECRET_KEY_PATH := v))"
  by (auto simp: fetch_key_def unlink_def log_api_error_def fun_upd_twist
      split: sum.splits prod.splits option.splits json.splits)

lemma read_key_id_token_update:
  "read_key_id_token L (fs(SECRET_KEY_PATH := v)) = read_key_id_token L fs"
  by (simp add: read_key_id_token_def)

lemma resolve_by_token_update:
  "resolve_by_token L N self rnd (fs(SECRET_KEY_PATH := v)) =
     (fst (resolve_by_token L N self rnd fs),
      (snd (resolve_by_token L N self rnd fs))(SECRET_KEY_PATH := v))"
  by (simp add: resolve_by_token_def read_key_id_token_update fetch_key_update
      split: option.splits sum.splits)

theorem load_key_local_file:
  assumes "fs SECRET_KEY_PATH = Some secret"
  shows "(length secret = 32 \<longrightarrow> load_key L N self rnd fs = (Inr secret, fs)) \<and>
         (length secret \<noteq> 32 \<longrightarrow>
            load_key L N self rnd fs =
              (fst (load_key L N self rnd (fs(SECRET_KEY_PATH := None))),
               (snd (load_key L N self rnd (fs(SECRET_KEY_PATH := None))))
                 (SECRET_KEY_PATH \<mapsto> secret)))"
proof (intro conjI impI)
  assume "length secret = 32"
  with assms show "load_key L N self rnd fs = (Inr secret, fs)"
    by (simp add: load_key_def)
next
  assume n: "length secret \<noteq> 32"
  have fs: "fs = (fs(SECRET_KEY_PATH := None))(SECRET_KEY_PATH \<mapsto> secret)"
    using assms by auto
  have a: "load_key L N self rnd (fs(SECRET_KEY_PATH := None)) =
      resolve_by_token L N self rnd (fs(SECRET_KEY_PATH := None))"
    by (simp add: load_key_def)
  have "load_key L N self rnd fs = resolve_by_token L N self rnd fs"
    using assms n by (simp add: load_key_def)
  also have "\<dots> = resolve_by_token L N self rnd
      ((fs(SECRET_KEY_PATH := None))(SECRET_KEY_PATH \<mapsto> secret))"
    using fs by simp
  also have "\<dots> = (fst (resolve_by_token L N self rnd (fs(SECRET_KEY_PATH := None))),
      (snd (resolve_by_token L N self rnd (fs(SECRET_KEY_PATH := None))))
        (SECRET_KEY_PATH \<mapsto> secret))"
    by (rule resolve_by_token_update)
  finally show "load_key L N self rnd fs =
      (fst (load_key L N self rnd (fs(SECRET_KEY_PATH := None))),
       (snd (load_key L N self rnd (fs(SECRET_KEY_PATH := None))))(SECRET_KEY_PATH \<mapsto> secret))"
    using a by simp
qed

theorem load_key_local_file_witness:
  "key_fs SECRET_KEY_PATH = Some zero_key \<and>
   length zero_key = 32 \<and>
   load_key toy_lib net_500 toy_self ''r'' key_fs = (Inr zero_key, key_fs) \<and>
   short_key_fs SECRET_KEY_PATH = Some short_key \<and>
   length short_key \<noteq> 32 \<and>
   load_key toy_lib net_500 toy_self ''r'' short_key_fs =
     (fst (load_key toy_lib net_500 toy_self ''r'' (short_key_fs(SECRET_KEY_PATH := None))),
      (snd (load_key toy_lib net_500 toy_self ''r'' (short_key_fs(SECRET_KEY_PATH := None))))
        (SECRET_KEY_PATH \<mapsto> short_key))"
proof -
  have a: "key_fs SECRET_KEY_PATH = Some zero_key" by (simp add: key_fs_def)
  have b: "length zero_key = 32" by (simp add: zero_key_def)
  have c: "short_key_fs SECRET_KEY_PATH = Some short_key" by (simp add: short_key_fs_def)
  have d: "length short_key \<noteq> 32" by (simp add: short_key_def)
  note t1 = load_key_local_file[where fs = key_fs and secret = zero_key and L = toy_lib
      and N = net_500 and self = toy_self and rnd = "''r''"]
  note t2 = load_key_local_file[where fs = short_key_fs and secret = short_key and L = toy_lib
      and N = net_500 and self = toy_self and rnd = "''r''"]
  from t1 a b have 1: "load_key toy_lib net_500 toy_self ''r'' key_fs = (Inr zero_key, key_fs)"
    by blast
  from t2 c d have 2: "load_key toy_lib net_500 toy_self ''r'' short_key_fs =
     (fst (load_key toy_lib net_500 toy_self ''r'' (short_key_fs(SECRET_KEY_PATH := None))),
      (snd (load_key toy_lib net_500 toy_self ''r'' (short_key_fs(SECRET_KEY_PATH := None))))
        (SECRET_KEY_PATH \<mapsto> short_key))"
    by blast
  from a b c d 1 2 show ?thesis by blast
qed

text \<open>
  C5. With no usable key file, a token document that yields a token, a handshake that
  succeeds and a token that could be wrapped, a 404 answer to \<^verbatim>\<open>/get-key\<close> makes key
  resolution delete the token document and return a freshly generated key; no exception
  reaches the caller.
\<close>

theorem load_key_stale_token:
  assumes "fs SECRET_KEY_PATH = None \<or> (\<exists>s. fs SECRET_KEY_PATH = Some s \<and> length s \<noteq> 32)"
    and "read_key_id_token L fs = Inr (Some key_id_token)"
    and "get_csrf_token L N = Inr (csrf_token, cookies)"
    and "prepare_data_for_transmission L self key_id_token = Inr wrapped"
    and "post N ''/get-key'' (request_json self csrf_token ''key_id_token'' wrapped) cookies
           = Inr res"
    and "status_code res = 404"
  shows "load_key L N self rnd fs =
           (Inr (generate_chacha20_key L rnd), fs(KEY_ID_TOKEN_JSON_PATH := None))"
proof -
  have "load_key L N self rnd fs = resolve_by_token L N self rnd fs"
    using assms(1) by (auto simp: load_key_def)
  also have "\<dots> = fetch_key L N self key_id_token rnd fs"
    using assms(2) by (simp add: resolve_by_token_def)
  also have "\<dots> = (Inr (generate_chacha20_key L rnd), fs(KEY_ID_TOKEN_JSON_PATH := None))"
    using assms(3-6) by (simp add: fetch_key_def unlink_def)
  finally show ?thesis .
qed


lemma toy_read_token: "read_key_id_token toy_lib token_fs = Inr (Some ''token-1'')"
  by (simp add: read_key_id_token_def read_text_def token_fs_def token_doc_def toy_lib_def
      toy_loads_def toy_documents_def toy_dumps_def validate_schema_obj_def KeyIdToken_def
      attr_str_def)

lemma toy_csrf: "get_csrf_token toy_lib net_404 = Inr (JStr ''csrf-1'', ''session=1'')"
  by (simp add: get_csrf_token_def net_404_def csrf_ok_def check_body_def py_in_def
      validate_schema_def APICsrfResponse_def attr_str_def subscript_def)

theorem load_key_stale_token_witness:
  "(token_fs SECRET_KEY_PATH = None \<or>
      (\<exists>s. token_fs SECRET_KEY_PATH = Some s \<and> length s \<noteq> 32)) \<and>
   read_key_id_token toy_lib token_fs = Inr (Some ''token-1'') \<and>
   get_csrf_token toy_lib net_404 = Inr (JStr ''csrf-1'', ''session=1'') \<and>
   prepare_data_for_transmission toy_lib toy_self ''token-1'' = Inr (b64encode ''1-nekot'') \<and>
   post net_404 ''/get-key''
      (request_json toy_self (JStr ''csrf-1'') ''key_id_token'' (b64encode ''1-nekot''))
      ''session=1'' = Inr not_found \<and>
   status_code not_found = 404 \<and>
   load_key toy_lib net_404 toy_self ''0123456789'' token_fs =
     (Inr (generate_chacha20_key toy_lib ''0123456789''),
      token_fs(KEY_ID_TOKEN_JSON_PATH := None))"
proof -
  have a: "token_fs SECRET_KEY_PATH = None \<or>
      (\<exists>s. token_fs SECRET_KEY_PATH = Some s \<and> length s \<noteq> 32)"
    by (simp add: token_fs_def no_files_def)
  have p: "prepare_data_for_transmission toy_lib toy_self ''token-1'' =
      Inr (b64encode ''1-nekot'')"
    by (simp add: prepare_data_for_transmission_def toy_lib_def)
  have q: "post net_404 ''/get-key''
      (request_json toy_self (JStr ''csrf-1'') ''key_id_token'' (b64encode ''1-nekot''))
      ''session=1'' = Inr not_found"
    by (simp add: net_404_def)
  have s: "status_code not_found = 404" by (simp add: not_found_def)
  from load_key_stale_token[OF a toy_read_token toy_csrf p q s, of "''0123456789''"]
    a toy_read_token toy_csrf p q s
  show ?thesis by blast
qed

subsection \<open>The handshake\<close>






subsection \<open>Saving the key\<close>

lemma escrow_key_frame:
  "p \<noteq> KEY_ID_TOKEN_JSON_PATH \<Longrightarrow> snd (escrow_key L N self fs) p = fs p"
  by (auto simp: escrow_key_def write_file_def log_api_error_def
      split: sum.splits prod.splits option.splits json.splits)

lemma save_key_frame_key:
  "snd (save_key L N self locally fs) SECRET_KEY_PATH \<noteq> fs SECRET_KEY_PATH \<Longrightarrow>
     snd (save_key L N self locally fs) KEY_ID_TOKEN_JSON_PATH = fs KEY_ID_TOKEN_JSON_PATH"
  by (auto simp: save_key_def write_file_def escrow_key_frame split: if_splits)

lemma save_key_frame_other:
  "p \<noteq> SECRET_KEY_PATH \<Longrightarrow> p \<noteq> KEY_ID_TOKEN_JSON_PATH \<Longrightarrow>
     snd (save_key L N self locally fs) p = fs p"
  by (auto simp: save_key_def write_file_def escrow_key_frame split: if_splits)

text \<open>
  C10. \<^verbatim>\<open>save_key\<close> never establishes both storage forms. When the token document exists
  it returns at once and writes nothing, whatever \<^verbatim>\<open>save_locally\<close> says; when the key file
  already holds the current key it returns at once and writes nothing; and after any call
  at most one of the key file and the token document differs from what it was before,
  every other file being untouched.
\<close>

theorem save_key_at_most_one_form:
  "(fs KEY_ID_TOKEN_JSON_PATH \<noteq> None \<longrightarrow>
      save_key L N self locally fs = (Inr (), fs)) \<and>
   (fs SECRET_KEY_PATH = Some (secret_key self) \<longrightarrow>
      save_key L N self locally fs = (Inr (), fs)) \<and>
   (snd (save_key L N self locally fs) SECRET_KEY_PATH = fs SECRET_KEY_PATH \<or>
    snd (save_key L N self locally fs) KEY_ID_TOKEN_JSON_PATH =
      fs KEY_ID_TOKEN_JSON_PATH) \<and>
   (\<forall>p. p \<noteq> SECRET_KEY_PATH \<and> p \<noteq> KEY_ID_TOKEN_JSON_PATH \<longrightarrow>
      snd (save_key L N self locally fs) p = fs p)"
proof -
  have A: "fs KEY_ID_TOKEN_JSON_PATH \<noteq> None \<longrightarrow>
      save_key L N self locally fs = (Inr (), fs)"
    by (simp add: save_key_def)
  have B: "fs SECRET_KEY_PATH = Some (secret_key self) \<longrightarrow>
      save_key L N self locally fs = (Inr (), fs)"
    by (simp add: save_key_def)
  have C: "snd (save_key L N self locally fs) SECRET_KEY_PATH = fs SECRET_KEY_PATH \<or>
    snd (save_key L N self locally fs) KEY_ID_TOKEN_JSON_PATH =
      fs KEY_ID_TOKEN_JSON_PATH"
    using save_key_frame_key[of L N self locally fs] by blast
  have D: "\<forall>p. p \<noteq> SECRET_KEY_PATH \<and> p \<noteq> KEY_ID_TOKEN_JSON_PATH \<longrightarrow>
      snd (save_key L N self locally fs) p = fs p"
    by (simp add: save_key_frame_other)
  show ?thesis by (rule conjI[OF A conjI[OF B conjI[OF C D]]])
qed

theorem save_key_at_most_one_form_witness:
  "token_fs KEY_ID_TOKEN_JSON_PATH \<noteq> None \<and>
   save_key toy_lib net_save_ok toy_self True token_fs = (Inr (), token_fs) \<and>
   key_fs SECRET_KEY_PATH = Some (secret_key toy_self) \<and>
   save_key toy_lib net_save_ok toy_self False key_fs = (Inr (), key_fs) \<and>
   PIXIV_REFRESH_TOKEN_PATH \<noteq> SECRET_KEY_PATH \<and>
   PIXIV_REFRESH_TOKEN_PATH \<noteq> KEY_ID_TOKEN_JSON_PATH \<and>
   snd (save_key toy_lib net_save_ok toy_self False no_files) PIXIV_REFRESH_TOKEN_PATH =
     no_files PIXIV_REFRESH_TOKEN_PATH"
proof -
  have a: "token_fs KEY_ID_TOKEN_JSON_PATH \<noteq> None" by (simp add: token_fs_def)
  have b: "key_fs SECRET_KEY_PATH = Some (secret_key toy_self)"
    by (simp add: key_fs_def toy_self_def)
  have c: "PIXIV_REFRESH_TOKEN_PATH \<noteq> SECRET_KEY_PATH \<and>
      PIXIV_REFRESH_TOKEN_PATH \<noteq> KEY_ID_TOKEN_JSON_PATH" by simp
  note t1 = save_key_at_most_one_form[where fs = token_fs and L = toy_lib
      and N = net_save_ok and self = toy_self and locally = True, THEN conjunct1]
  note t2 = save_key_at_most_one_form[where fs = key_fs and L = toy_lib
      and N = net_save_ok and self = toy_self and locally = False,
      THEN conjunct2, THEN conjunct1]
  note t3 = save_key_at_most_one_form[where fs = no_files and L = toy_lib
      and N = net_save_ok and self = toy_self and locally = False,
      THEN conjunct2, THEN conjunct2, THEN conjunct2]
  from t1 a have 1: "save_key toy_lib net_save_ok toy_self True token_fs = (Inr (), token_fs)"
    by (rule mp)
  from t2 b have 2: "save_key toy_lib net_save_ok toy_self False key_fs = (Inr (), key_fs)"
    by (rule mp)
  from t3 c
  have 3: "snd (save_key toy_lib net_save_ok toy_self False no_files) PIXIV_REFRESH_TOKEN_PATH =
     no_files PIXIV_REFRESH_TOKEN_PATH"
    by blast
  show ?thesis using a 1 b 2 c 3 by (intro conjI) simp_all
qed

subsection \<open>Retries\<close>

lemma upt_Suc_Cons: "c \<le> m \<Longrightarrow> [c..<Suc m] = c # [Suc c..<Suc m]"
  by (simp add: upt_conv_Cons)

lemma after_attempts_Suc:
  "after_attempts attempt (Suc n) w = after_attempts attempt n (snd (attempt w))"
  by (simp add: after_attempts_def funpow_Suc_right del: funpow.simps)

lemma first_fail_Suc:
  "first_fail attempt (Suc n) w \<longleftrightarrow>
     fails_caught attempt w \<and> first_fail attempt n (snd (attempt w))"
proof -
  let ?P = "\<lambda>i. fails_caught attempt (after_attempts attempt i w)"
  have u: "[0..<Suc n] = 0 # map Suc [0..<n]"
    by (simp add: upt_conv_Cons map_Suc_upt del: upt_Suc)
  have "first_fail attempt (Suc n) w = list_all ?P (0 # map Suc [0..<n])"
    unfolding first_fail_def u ..
  also have "\<dots> = (?P 0 \<and> list_all (\<lambda>i. ?P (Suc i)) [0..<n])"
    by (simp add: list.pred_map comp_def)
  also have "?P 0 = fails_caught attempt w"
    by (simp add: after_attempts_def)
  also have "list_all (\<lambda>i. ?P (Suc i)) [0..<n] = first_fail attempt n (snd (attempt w))"
    by (simp add: first_fail_def after_attempts_Suc)
  finally show ?thesis .
qed

lemma save_key_loop_skip:
  "first_fail attempt n w \<Longrightarrow> c + n \<le> m \<Longrightarrow>
     save_key_loop attempt m [c..<Suc m] w s =
       save_key_loop attempt m [c + n..<Suc m] (after_attempts attempt n w) (s + n)"
proof (induction n arbitrary: c w s)
  case 0
  then show ?case by (simp add: after_attempts_def)
next
  case (Suc n)
  from Suc.prems(1) have f: "fails_caught attempt w"
    and r: "first_fail attempt n (snd (attempt w))"
    by (simp_all add: first_fail_Suc)
  from f obtain e w' where a: "attempt w = (Inl e, w')" and c: "caught e"
    by (cases "attempt w") (auto simp: fails_caught_def split: sum.splits)
  from Suc.prems(2) have lt: "c \<le> m" "c \<noteq> m" "Suc c + n \<le> m" by simp_all
  have "save_key_loop attempt m [c..<Suc m] w s =
      save_key_loop attempt m [Suc c..<Suc m] w' (s + 1)"
    using a c lt by (simp add: upt_Suc_Cons[OF lt(1)] del: upt_Suc)
  also have "\<dots> = save_key_loop attempt m [Suc c + n..<Suc m]
      (after_attempts attempt n w') (s + 1 + n)"
    using Suc.IH[of w' "Suc c" "s + 1"] r lt(3) a by simp
  finally show ?case using a by (simp add: after_attempts_Suc)
qed

lemma load_key_loop_skip:
  "first_fail attempt n w \<Longrightarrow> c + n \<le> m \<Longrightarrow>
     load_key_loop attempt m [c..<Suc m] w s =
       load_key_loop attempt m [c + n..<Suc m] (after_attempts attempt n w) (s + n)"
proof (induction n arbitrary: c w s)
  case 0
  then show ?case by (simp add: after_attempts_def)
next
  case (Suc n)
  from Suc.prems(1) have f: "fails_caught attempt w"
    and r: "first_fail attempt n (snd (attempt w))"
    by (simp_all add: first_fail_Suc)
  from f obtain e w' where a: "attempt w = (Inl e, w')" and c: "caught e"
    by (cases "attempt w") (auto simp: fails_caught_def split: sum.splits)
  from Suc.prems(2) have lt: "c \<le> m" "c \<noteq> m" "Suc c + n \<le> m" by simp_all
  have "load_key_loop attempt m [c..<Suc m] w s =
      load_key_loop attempt m [Suc c..<Suc m] w' (s + 1)"
    using a c lt by (simp add: upt_Suc_Cons[OF lt(1)] del: upt_Suc)
  also have "\<dots> = load_key_loop attempt m [Suc c + n..<Suc m]
      (after_attempts attempt n w') (s + 1 + n)"
    using Suc.IH[of w' "Suc c" "s + 1"] r lt(3) a by simp
  finally show ?case using a by (simp add: after_attempts_Suc)
qed

lemma save_key_with_retries_at:
  assumes "first_fail attempt n w" and "n < m"
  shows "save_key_with_retries attempt m w =
     (case attempt (after_attempts attempt n w) of
        (Inr u, w') \<Rightarrow> (Inr (Some True), w', n)
      | (Inl e, w') \<Rightarrow>
          (if caught e then
             (if Suc n = m then (Inr (Some False), w', n)
              else save_key_loop attempt m [Suc (Suc n)..<Suc m] w' (Suc n))
           else (Inl e, w', n)))"
proof -
  from assms(2) have le: "1 + n \<le> m" by simp
  have "save_key_with_retries attempt m w =
      save_key_loop attempt m [1 + n..<Suc m] (after_attempts attempt n w) n"
    unfolding save_key_with_retries_def
    using save_key_loop_skip[OF assms(1) le, of 0] by simp
  also have "[1 + n..<Suc m] = Suc n # [Suc (Suc n)..<Suc m]"
    using upt_Suc_Cons[of "Suc n" m] assms(2) by simp
  finally show ?thesis
    by (simp split: prod.splits sum.splits)
qed

lemma load_key_with_retries_at:
  assumes "first_fail attempt n w" and "n < m"
  shows "load_key_with_retries attempt m w =
     (case attempt (after_attempts attempt n w) of
        (Inr obj, w') \<Rightarrow> (Inr (Some obj), w', n)
      | (Inl e, w') \<Rightarrow>
          (if caught e then
             (if Suc n = m then (Inr None, w', n)
              else load_key_loop attempt m [Suc (Suc n)..<Suc m] w' (Suc n))
           else (Inl e, w', n)))"
proof -
  from assms(2) have le: "1 + n \<le> m" by simp
  have "load_key_with_retries attempt m w =
      load_key_loop attempt m [1 + n..<Suc m] (after_attempts attempt n w) n"
    unfolding load_key_with_retries_def
    using load_key_loop_skip[OF assms(1) le, of 0] by simp
  also have "[1 + n..<Suc m] = Suc n # [Suc (Suc n)..<Suc m]"
    using upt_Suc_Cons[of "Suc n" m] assms(2) by simp
  finally show ?thesis
    by (simp split: prod.splits sum.splits)
qed

lemma toy_handshake_500:
  "get_csrf_token toy_lib net_500 = Inl (APIServerError (ReceivedStatus 500 ''oops''))"
  by (simp add: get_csrf_token_def net_500_def server_error_def log_api_error_def)

lemma toy_handshake_ok:
  "get_csrf_token toy_lib net_save_ok = Inr (JStr ''csrf-1'', ''session=1'')"
  by (simp add: get_csrf_token_def net_save_ok_def csrf_ok_def check_body_def py_in_def
      validate_schema_def APICsrfResponse_def attr_str_def subscript_def)

lemma toy_save_key_500:
  "save_key toy_lib net_500 toy_self False no_files =
     (Inl (APIServerError (ReceivedStatus 500 ''oops'')), no_files)"
  by (simp add: save_key_def escrow_key_def toy_handshake_500 no_files_def)

lemma toy_read_response:
  "read_api_response toy_lib toy_self wrapped_token = Inr ''token-1''"
  by (simp add: read_api_response_def wrapped_token_def b64decode_b64encode toy_lib_def
      del: b64encode.simps)

lemma toy_utf8: "utf8_decode toy_lib ''token-1'' = Some ''token-1''"
  by (simp add: toy_lib_def)

lemma toy_dumps_sel: "json_dumps toy_lib = toy_dumps"
  by (simp add: toy_lib_def)

lemma toy_write_token:
  "write_text toy_lib (toy_dumps (JObj [(''key_id_token'', JStr ''token-1'')])) =
     toy_dumps (JObj [(''key_id_token'', JStr ''token-1'')])"
  by (rule write_text_id) (simp add: toy_dumps_def)

lemma toy_save_key_ok:
  "save_key toy_lib net_save_ok toy_self False no_files = (Inr (), saved_fs)"
proof -
  have p: "prepare_data_for_transmission toy_lib toy_self (secret_key toy_self) =
      Inr (b64encode (rev zero_key))"
    by (simp add: prepare_data_for_transmission_def toy_lib_def toy_self_def)
  have n: "no_files SECRET_KEY_PATH \<noteq> Some (secret_key toy_self)"
    "no_files KEY_ID_TOKEN_JSON_PATH = None"
    by (simp_all add: no_files_def)
  have e: "escrow_key toy_lib net_save_ok toy_self no_files = (Inr (), saved_fs)"
    unfolding escrow_key_def toy_handshake_ok p
    by (simp add: net_save_ok_def check_body_def py_in_def validate_schema_def
        APIKeyIDResponse_def attr_str_def subscript_def toy_read_response saved_fs_def
        write_file_def token_doc_def toy_utf8 toy_dumps_sel toy_write_token)
  show ?thesis using n e by (simp add: save_key_def)
qed

lemma flaky_first:
  "save_key_attempt toy_lib flaky_nets toy_self False (no_files, 0) =
     (Inl (APIServerError (ReceivedStatus 500 ''oops'')), (no_files, 1))"
  by (simp add: save_key_attempt_def flaky_nets_def toy_save_key_500)

lemma flaky_second:
  "save_key_attempt toy_lib flaky_nets toy_self False (no_files, Suc 0) =
     (Inr (), (saved_fs, 2))"
  by (simp add: save_key_attempt_def flaky_nets_def toy_save_key_ok)

lemma always_500_attempt:
  "save_key_attempt toy_lib always_500 toy_self False (no_files, i) =
     (Inl (APIServerError (ReceivedStatus 500 ''oops'')), (no_files, Suc i))"
  by (simp add: save_key_attempt_def always_500_def toy_save_key_500)

text \<open>
  C3, as the code has it. Both wrappers retry every exception of their \<^verbatim>\<open>except\<close> tuple:
  connection and timeout errors, and \<^verbatim>\<open>APIServerError\<close> and \<^verbatim>\<open>JSONDecodeError\<close> as well.
  When the first \<open>n < MAX_RETRIES\<close> attempts failed that way, attempt \<open>n + 1\<close> decides: a
  success returns \<^verbatim>\<open>True\<close> (the object, for the load), an exception outside the tuple
  propagates at once, and a further exception of the tuple on the last attempt returns
  \<^verbatim>\<open>False\<close> (\<^verbatim>\<open>None\<close>, for the load) instead of raising. In each case \<open>n + 1\<close> attempts
  were made and \<^verbatim>\<open>time.sleep(C.RETRY_DELAY)\<close> was called \<open>n\<close> times.
\<close>

theorem retry_policy:
  assumes "n < max_retries"
  shows "(first_fail sa n w \<longrightarrow>
            (case sa (after_attempts sa n w) of
               (Inr u, w') \<Rightarrow>
                 save_key_with_retries sa max_retries w = (Inr (Some True), w', n)
             | (Inl e, w') \<Rightarrow>
                 (\<not> caught e \<longrightarrow>
                    save_key_with_retries sa max_retries w = (Inl e, w', n)) \<and>
                 (caught e \<and> Suc n = max_retries \<longrightarrow>
                    save_key_with_retries sa max_retries w = (Inr (Some False), w', n)))) \<and>
         (first_fail la n v \<longrightarrow>
            (case la (after_attempts la n v) of
               (Inr obj, v') \<Rightarrow>
                 load_key_with_retries la max_retries v = (Inr (Some obj), v', n)
             | (Inl e, v') \<Rightarrow>
                 (\<not> caught e \<longrightarrow>
                    load_key_with_retries la max_retries v = (Inl e, v', n)) \<and>
                 (caught e \<and> Suc n = max_retries \<longrightarrow>
                    load_key_with_retries la max_retries v = (Inr None, v', n))))"
proof -
  have A: "first_fail sa n w \<longrightarrow>
            (case sa (after_attempts sa n w) of
               (Inr u, w') \<Rightarrow>
                 save_key_with_retries sa max_retries w = (Inr (Some True), w', n)
             | (Inl e, w') \<Rightarrow>
                 (\<not> caught e \<longrightarrow>
                    save_key_with_retries sa max_retries w = (Inl e, w', n)) \<and>
                 (caught e \<and> Suc n = max_retries \<longrightarrow>
                    save_key_with_retries sa max_retries w = (Inr (Some False), w', n)))"
  proof
    assume f: "first_fail sa n w"
    show "(case sa (after_attempts sa n w) of
               (Inr u, w') \<Rightarrow>
                 save_key_with_retries sa max_retries w = (Inr (Some True), w', n)
             | (Inl e, w') \<Rightarrow>
                 (\<not> caught e \<longrightarrow>
                    save_key_with_retries sa max_retries w = (Inl e, w', n)) \<and>
                 (caught e \<and> Suc n = max_retries \<longrightarrow>
                    save_key_with_retries sa max_retries w = (Inr (Some False), w', n)))"
      unfolding save_key_with_retries_at[OF f assms]
      by (simp split: prod.splits sum.splits)
  qed
  have B: "first_fail la n v \<longrightarrow>
            (case la (after_attempts la n v) of
               (Inr obj, v') \<Rightarrow>
                 load_key_with_retries la max_retries v = (Inr (Some obj), v', n)
             | (Inl e, v') \<Rightarrow>
                 (\<not> caught e \<longrightarrow>
                    load_key_with_retries la max_retries v = (Inl e, v', n)) \<and>
                 (caught e \<and> Suc n = max_retries \<longrightarrow>
                    load_key_with_retries la max_retries v = (Inr None, v', n)))"
  proof
    assume f: "first_fail la n v"
    show "(case la (after_attempts la n v) of
               (Inr obj, v') \<Rightarrow>
                 load_key_with_retries la max_retries v = (Inr (Some obj), v', n)
             | (Inl e, v') \<Rightarrow>
                 (\<not> caught e \<longrightarrow>
                    load_key_with_retries la max_retries v = (Inl e, v', n)) \<and>
                 (caught e \<and> Suc n = max_retries \<longrightarrow>
                    load_key_with_retries la max_retries v = (Inr None, v', n)))"
      unfolding load_key_with_retries_at[OF f assms]
      by (simp split: prod.splits sum.splits)
  qed
  show ?thesis by (rule conjI[OF A B])
qed

lemma flaky_first_fail:
  "first_fail (save_key_attempt toy_lib flaky_nets toy_self False) 1 (no_files, 0)"
  by (simp add: first_fail_def fails_caught_def after_attempts_def flaky_first caught_def)

lemma refused_first_fail: "first_fail refused_attempt 1 0"
  by (simp add: first_fail_def fails_caught_def after_attempts_def refused_attempt_def
      caught_def)

theorem retry_policy_witness:
  "(1::nat) < 2 \<and>
   first_fail (save_key_attempt toy_lib flaky_nets toy_self False) 1 (no_files, 0) \<and>
   save_key_with_retries (save_key_attempt toy_lib flaky_nets toy_self False) 2 (no_files, 0) =
     (Inr (Some True), (saved_fs, 2), 1) \<and>
   first_fail refused_attempt 1 0 \<and>
   caught ConnectError \<and>
   load_key_with_retries refused_attempt 2 0 = (Inr None, 2, 1)"
proof -
  have l: "(1::nat) < 2" by simp
  note t = retry_policy[OF l, where sa = "save_key_attempt toy_lib flaky_nets toy_self False"
      and w = "(no_files, 0)" and la = refused_attempt and v = 0]
  have c: "caught ConnectError" by (simp add: caught_def)
  from t[THEN conjunct1] flaky_first_fail
  have 1: "save_key_with_retries (save_key_attempt toy_lib flaky_nets toy_self False) 2
      (no_files, 0) = (Inr (Some True), (saved_fs, 2), 1)"
    by (simp add: after_attempts_def flaky_first flaky_second)
  from t[THEN conjunct2] refused_first_fail c
  have 2: "load_key_with_retries refused_attempt 2 0 = (Inr None, 2, 1)"
    by (simp add: after_attempts_def refused_attempt_def)
  show ?thesis using l flaky_first_fail 1 refused_first_fail c 2 by (intro conjI)
qed

text \<open>
  C3 as stated fails. An escrow service that answers the first handshake with HTTP 500
  and works afterwards: the first \<^verbatim>\<open>save_key\<close> raises \<^verbatim>\<open>APIServerError\<close>, the wrapper
  sleeps, tries again and returns \<^verbatim>\<open>True\<close> with the token document written. A service
  that always answers 500: the wrapper makes three attempts and returns \<^verbatim>\<open>False\<close>; the
  \<^verbatim>\<open>APIServerError\<close> is never raised to the caller.
\<close>

theorem server_error_is_retried:
  "save_key_attempt toy_lib flaky_nets toy_self False (no_files, 0) =
     (Inl (APIServerError (ReceivedStatus 500 ''oops'')), (no_files, 1)) \<and>
   save_key_with_retries (save_key_attempt toy_lib flaky_nets toy_self False) 3 (no_files, 0) =
     (Inr (Some True), (saved_fs, 2), 1) \<and>
   save_key_with_retries (save_key_attempt toy_lib always_500 toy_self False) 3 (no_files, 0) =
     (Inr (Some False), (no_files, 3), 2)"
proof -
  have u: "[1..<3 + 1] = [1, 2, 3::nat]" by (simp add: upt_conv_Cons)
  have 1: "save_key_with_retries (save_key_attempt toy_lib flaky_nets toy_self False) 3
      (no_files, 0) = (Inr (Some True), (saved_fs, 2), 1)"
    unfolding save_key_with_retries_def u
    by (simp add: flaky_first flaky_second caught_def)
  have 2: "save_key_with_retries (save_key_attempt toy_lib always_500 toy_self False) 3
      (no_files, 0) = (Inr (Some False), (no_files, 3), 2)"
    unfolding save_key_with_retries_def u
    by (simp add: always_500_attempt caught_def)
  show ?thesis using flaky_first 1 2 by (intro conjI)
qed

subsection \<open>The transport key pair\<close>













































subsection \<open>The batch of workers\<close>






































end
